theory Spec2Isabelle
  imports Complex_Main "HOL-Library.Word"
begin

unbundle bit_operations_syntax

section \<open>Data model of the session layer (session/session.go)\<close>

text \<open>
  The session owns one client connection and the currently active backend connection.
  Everything the session does to its collaborators (the two connections, the dialer, the
  tracker, the animation strategy, the registry, the logger, the Go scheduler) is recorded,
  in program order, as an event appended to the field \<open>trace\<close> of the session. The
  collaborators themselves live outside \<open>session.go\<close>; what they answer (the result of a
  dial, the result of \<open>StartGame\<close>) is a parameter of the operation that asks.

  A finite \<open>float32\<close> is modelled by the real number it denotes; the infinities and
  NaN are values of their own. Go errors are modelled by their message.
\<close>

type_synonym int32 = "32 word"
type_synonym uint32 = "32 word"
type_synonym int64 = "64 word"
type_synonym uint64 = "64 word"

datatype float32 = Finite real | PosInf | NegInf | NaN

text \<open>\<open>mgl32.Vec3\<close> with its accessors \<open>X()\<close>, \<open>Y()\<close>, \<open>Z()\<close>.\<close>

type_synonym vec3 = "float32 \<times> float32 \<times> float32"

definition vec_X :: "vec3 \<Rightarrow> float32" where
  "vec_X v = fst v"

definition vec_Y :: "vec3 \<Rightarrow> float32" where
  "vec_Y v = fst (snd v)"

definition vec_Z :: "vec3 \<Rightarrow> float32" where
  "vec_Z v = snd (snd v)"

text \<open>The fields of \<open>minecraft.GameData\<close> that the session reads.\<close>

record game_data =
  EntityRuntimeID :: uint64
  Dimension :: int32
  PlayerPosition :: vec3
  Pitch :: float32
  Yaw :: float32
  Difficulty :: int32
  PlayerGameMode :: int32
  GameRules :: "string list"

text \<open>
  The entity flags \<open>sendMetadata\<close> sets; the metadata of a packet is the list of flags
  set in it, in the order of the \<open>SetFlag\<close> calls.
\<close>

datatype entity_flag = EntityDataFlagNoAI | EntityDataFlagBreathing | EntityDataFlagHasGravity

datatype level_event_type = LevelEventStopRaining | LevelEventStopThunderstorm

datatype move_mode = MoveModeReset

datatype chunk_payload = EmptyChunkPayload int32

text \<open>
  The packets the session constructs itself, and \<open>BackendPacket\<close> for a packet that a
  backend produced and the session passes on without looking into it.
\<close>

datatype packet =
    SetActorData uint64 "entity_flag list"
  | LevelChunk int32 "int32 \<times> int32" uint32 chunk_payload
  | MovePlayer uint64 vec3 float32 float32 move_mode
  | LevelEvent level_event_type int32
  | SetDifficulty uint32
  | SetPlayerGameType int32
  | GameRulesChanged "string list"
  | Disconnect string
  | BackendPacket nat

text \<open>\<open>packet.DimensionNether\<close> of the protocol library.\<close>

definition DimensionNether :: int32 where
  "DimensionNether = 1"

text \<open>
  Modelled from the spec: \<open>emptyChunk\<close> is a function of this package that is not among
  the sources read here. The spec calls its result a synthetic, empty chunk; the payload is
  kept abstract, labelled with the dimension it was built for.
\<close>

definition emptyChunk :: "int32 \<Rightarrow> chunk_payload" where
  "emptyChunk dimension = EmptyChunkPayload dimension"

text \<open>
  A backend connection (\<open>server.Conn\<close>): its identity, what \<open>GameData()\<close> returns and
  what \<open>ReadDeferred()\<close> returns, in arrival order. A nil \<open>*server.Conn\<close> is \<open>None\<close>.
\<close>

record server_conn =
  conn_id :: nat
  conn_GameData :: game_data
  conn_Deferred :: "packet list"

text \<open>The client connection (\<open>minecraft.Conn\<close>): what its accessors return.\<close>

record client_conn =
  client_GameData :: game_data
  identity_XUID :: string
  identity_DisplayName :: string

datatype animation = DimensionAnimation | CustomAnimation nat

datatype handler = NoopHandler | CustomHandler nat

datatype tracked = Effects | Entities | BossBars | Players | Scoreboards

datatype goroutine =
    Startup string int64
  | HandleIncoming
  | HandleOutgoing
  | HandleLatency int64

datatype event =
    ClientWrite packet
  | ClientStartGame game_data
  | ClientClose
  | Dial string
  | ServerGameData server_conn
  | ServerReadDeferred server_conn
  | ServerClose server_conn
  | AnimationPlay animation game_data
  | AnimationClear animation game_data
  | TrackerClear tracked
  | SetServerAddr string
  | SetServerConn "server_conn option"
  | RegistryAdd string
  | RegistryRemove string
  | LogError string
  | LogInfo string
  | LogDebug string
  | Go goroutine

text \<open>\<open>sync.RWMutex\<close>: free, held by the writer, or held by a number of readers.\<close>

datatype rwmutex = MuFree | MuWrite | MuRead nat

record session =
  clientConn :: client_conn
  serverAddr :: string
  serverConn :: "server_conn option"
  serverMu :: rwmutex
  handler :: handler
  animation :: animation
  latency :: int64
  once :: bool
  transferring :: bool
  trace :: "event list"

text \<open>
  How a call ends: it returns (with Go's \<open>error\<close>, \<open>None\<close> for nil), it panics, or it
  never returns.
\<close>

datatype outcome = Returned "string option" | Panicked | Blocked

section \<open>Operations\<close>

definition emit :: "event \<Rightarrow> session \<Rightarrow> session" where
  "emit e s = s\<lparr>trace := trace s @ [e]\<rparr>"

text \<open>\<open>_ = s.clientConn.WritePacket(pk)\<close>: the result is discarded.\<close>

definition WritePacket :: "packet \<Rightarrow> session \<Rightarrow> session" where
  "WritePacket pk s = emit (ClientWrite pk) s"

definition sendMetadata :: "bool \<Rightarrow> session \<Rightarrow> session" where
  "sendMetadata noAI s =
     (let metadata = [];
          metadata = (if noAI then metadata @ [EntityDataFlagNoAI] else metadata);
          metadata = metadata @ [EntityDataFlagBreathing];
          metadata = metadata @ [EntityDataFlagHasGravity]
      in WritePacket (SetActorData (EntityRuntimeID (client_GameData (clientConn s))) metadata) s)"

text \<open>
  Modelled from the spec: \<open>server.Conn\<close> belongs to this repository but is not among
  the sources read here. The spec's "closes the backend connection if one exists", together
  with the nil check in \<open>Close\<close>, is taken to mean that \<open>Close()\<close> called on a nil
  \<open>*server.Conn\<close> dereferences nil and panics. \<open>s.serverConn.Close()\<close> is \<open>None\<close>
  for the panic.
\<close>

definition serverConn_Close :: "session \<Rightarrow> session option" where
  "serverConn_Close s =
     (case serverConn s of None \<Rightarrow> None | Some c \<Rightarrow> Some (emit (ServerClose c) s))"

text \<open>
  \<open>Close\<close>: the body runs under \<open>sync.Once\<close>, here the flag \<open>once\<close>. The result is
  \<open>None\<close> when the body panics.
\<close>

definition Close :: "session \<Rightarrow> session option" where
  "Close s =
     (if once s then Some s
      else
        (let s = s\<lparr>once := True\<rparr>;
             s = emit ClientClose s
         in case (if serverConn s \<noteq> None then serverConn_Close s else Some s) of
              None \<Rightarrow> None
            | Some s \<Rightarrow>
                (let identity = clientConn s;
                     s = emit (RegistryRemove (identity_XUID identity)) s;
                     s = emit (LogInfo (''Closed session for '' @ identity_DisplayName identity)) s
                 in Some s)))"

definition Disconnect_session :: "string \<Rightarrow> session \<Rightarrow> session option" where
  "Disconnect_session message s = Close (WritePacket (Disconnect message) s)"

definition SetHandler :: "handler \<Rightarrow> session \<Rightarrow> session" where
  "SetHandler h s = s\<lparr>handler := h\<rparr>"

definition SetAnimation :: "animation \<Rightarrow> session \<Rightarrow> session" where
  "SetAnimation a s = s\<lparr>animation := a\<rparr>"

text \<open>
  \<open>NewSession\<close> builds the session, starts the startup goroutine and returns the session
  with the named result \<open>err\<close>, which the function body never assigns (the \<open>err\<close> of the
  goroutine is a variable of its own, declared by \<open>:=\<close> inside the closure). The logger and
  the registry are collaborators; they show in the trace only.
\<close>

definition NewSession :: "client_conn \<Rightarrow> string \<Rightarrow> int64 \<Rightarrow> session \<times> string option" where
  "NewSession cc addr latencyInterval =
     (let err = None;
          s = \<lparr>clientConn = cc, serverAddr = [], serverConn = None, serverMu = MuFree,
               handler = NoopHandler, animation = DimensionAnimation, latency = 0,
               once = False, transferring = False, trace = []\<rparr>;
          s = emit (Go (Startup addr latencyInterval)) s
      in (s, err))"

text \<open>
  The goroutine started by \<open>NewSession\<close>. \<open>dialed\<close> is what \<open>s.Dial(addr)\<close> returns (the
  error, or the connection), \<open>started\<close> what \<open>clientConn.StartGame\<close> returns.

  \<open>StartGame\<close> of the protocol library stores the game data it is given in the client
  connection before it relays them, so that \<open>clientConn.GameData()\<close> returns the data of
  the backend from then on.
\<close>

definition StartGame :: "game_data \<Rightarrow> session \<Rightarrow> session" where
  "StartGame data s =
     emit (ClientStartGame data) (s\<lparr>clientConn := (clientConn s)\<lparr>client_GameData := data\<rparr>\<rparr>)"

definition NewSession_go ::
  "string + server_conn \<Rightarrow> string option \<Rightarrow> string \<Rightarrow> int64 \<Rightarrow> session
     \<Rightarrow> session option" where
  "NewSession_go dialed started addr latencyInterval s =
     (let s = emit (Dial addr) s;
          s = emit (SetServerAddr addr) (s\<lparr>serverAddr := addr\<rparr>)
      in case dialed of
           Inl err \<Rightarrow>
             (let s = emit (SetServerConn None) (s\<lparr>serverConn := None\<rparr>)
              in case Close s of
                   None \<Rightarrow> None
                 | Some s \<Rightarrow> Some (emit (LogError (''Failed to dial server: '' @ err)) s))
         | Inr conn \<Rightarrow>
             (let s = emit (SetServerConn (Some conn)) (s\<lparr>serverConn := Some conn\<rparr>);
                  s = emit (ServerGameData conn) s;
                  s = StartGame (conn_GameData conn) s
              in case started of
                   Some err \<Rightarrow>
                     (case Close s of
                        None \<Rightarrow> None
                      | Some s \<Rightarrow>
                          Some (emit (LogError (''Failed to start game timeout: '' @ err)) s))
                 | None \<Rightarrow>
                     (let s = sendMetadata True s;
                          s = emit (ServerReadDeferred conn) s;
                          s = fold WritePacket (conn_Deferred conn) s;
                          s = emit (Go HandleIncoming) s;
                          s = emit (Go HandleOutgoing) s;
                          s = emit (Go (HandleLatency latencyInterval)) s;
                          s = emit (RegistryAdd (identity_XUID (clientConn s))) s;
                          s = emit (LogInfo (''Successfully started session for ''
                                @ identity_DisplayName (clientConn s))) s
                      in Some s)))"

subsection \<open>Transfer\<close>

text \<open>
  \<open>int32(f)\<close> for a \<open>float32\<close>: the fraction is discarded (truncation towards zero). When
  the truncated value does not fit \<open>int32\<close>, and for the infinities and NaN, Go leaves the
  result to the implementation; the model gives what the conversion instruction of amd64
  gives there, the smallest \<open>int32\<close>.
\<close>

definition int32_of_float32 :: "float32 \<Rightarrow> int32" where
  "int32_of_float32 f =
     (case f of
        Finite r \<Rightarrow>
          (let k = (if 0 \<le> r then \<lfloor>r\<rfloor> else - \<lfloor>- r\<rfloor>)
           in if - (2 ^ 31) \<le> k \<and> k < 2 ^ 31 then word_of_int k else - (2 ^ 31))
      | _ \<Rightarrow> - (2 ^ 31))"

text \<open>
  The two loops of the chunk flood, on \<open>int32\<close> counters with signed comparison. A loop
  whose upper bound is the largest \<open>int32\<close> would never end, so the loops return an option.
\<close>

partial_function (option) flood_z ::
  "chunk_payload \<Rightarrow> int32 \<Rightarrow> int32 \<Rightarrow> int32 \<Rightarrow> session \<Rightarrow> session option" where
  "flood_z chunk x z chunkZ s =
     (if z \<le>s chunkZ + 4
      then flood_z chunk x (z + 1) chunkZ
             (WritePacket (LevelChunk DimensionNether (x, z) 1 chunk) s)
      else Some s)"

partial_function (option) flood_x ::
  "chunk_payload \<Rightarrow> int32 \<Rightarrow> int32 \<Rightarrow> int32 \<Rightarrow> session \<Rightarrow> session option" where
  "flood_x chunk x chunkX chunkZ s =
     (if x \<le>s chunkX + 4
      then Option.bind (flood_z chunk x (chunkZ - 4) chunkZ s)
             (\<lambda>s. flood_x chunk (x + 1) chunkX chunkZ s)
      else Some s)"

text \<open>Lines 112 and 113: the chunk coordinates of the reported player position.\<close>

definition chunkX_of :: "game_data \<Rightarrow> int32" where
  "chunkX_of serverGameData =
     signed_drop_bit 4 (int32_of_float32 (vec_X (PlayerPosition serverGameData)))"

definition chunkZ_of :: "game_data \<Rightarrow> int32" where
  "chunkZ_of serverGameData =
     signed_drop_bit 4 (int32_of_float32 (vec_Z (PlayerPosition serverGameData)))"

text \<open>Lines 110 to 123: the chunk flood.\<close>

definition chunk_flood :: "game_data \<Rightarrow> session \<Rightarrow> session option" where
  "chunk_flood serverGameData s =
     (let chunk = emptyChunk (Dimension serverGameData);
          chunkX = chunkX_of serverGameData;
          chunkZ = chunkZ_of serverGameData
      in flood_x chunk (chunkX - 4) chunkX chunkZ s)"

text \<open>
  Lines 99 to 168 of \<open>Transfer\<close>, run with the flag set and the write lock held.
  \<open>dialed\<close> is what \<open>s.Dial(addr)\<close> returns. \<open>s.serverConn.Close()\<close> is called on the
  field as it is, with no nil check.
\<close>

definition Transfer_locked ::
  "string + server_conn \<Rightarrow> string \<Rightarrow> session \<Rightarrow> outcome \<times> session" where
  "Transfer_locked dialed addr s =
     (let s = sendMetadata True s;
          s = emit (Dial addr) s
      in case dialed of
           Inl err \<Rightarrow>
             (let s = sendMetadata False s;
                  s = emit (LogError (''Failed to dial server: '' @ err)) s
              in (Returned (Some err), s))
         | Inr conn \<Rightarrow>
             (let s = emit (ServerGameData conn) s;
                  serverGameData = conn_GameData conn;
                  s = emit (AnimationPlay (animation s) serverGameData) s
              in case chunk_flood serverGameData s of
                   None \<Rightarrow> (Blocked, s)
                 | Some s \<Rightarrow>
                     (let s = emit (TrackerClear Effects) s;
                          s = emit (TrackerClear Entities) s;
                          s = emit (TrackerClear BossBars) s;
                          s = emit (TrackerClear Players) s;
                          s = emit (TrackerClear Scoreboards) s;
                          s = WritePacket (MovePlayer (EntityRuntimeID serverGameData)
                                (PlayerPosition serverGameData) (Pitch serverGameData)
                                (Yaw serverGameData) MoveModeReset) s;
                          s = WritePacket (LevelEvent LevelEventStopRaining 10000) s;
                          s = WritePacket (LevelEvent LevelEventStopThunderstorm 0) s;
                          s = WritePacket (SetDifficulty (Difficulty serverGameData)) s;
                          s = WritePacket (SetPlayerGameType (PlayerGameMode serverGameData)) s;
                          s = WritePacket (GameRulesChanged (GameRules serverGameData)) s;
                          s = emit (AnimationClear (animation s) serverGameData) s
                      in case serverConn_Close s of
                           None \<Rightarrow> (Panicked, s)
                         | Some s \<Rightarrow>
                             (let s = emit (SetServerAddr addr) (s\<lparr>serverAddr := addr\<rparr>);
                                  s = emit (SetServerConn (Some conn)) (s\<lparr>serverConn := Some conn\<rparr>);
                                  s = emit (ServerReadDeferred conn) s;
                                  s = fold WritePacket (conn_Deferred conn) s;
                                  s = emit (LogDebug (''Transferred session for ''
                                        @ identity_DisplayName (clientConn s) @ '' to '' @ addr)) s
                              in (Returned None, s)))))"

text \<open>The deferred function of \<open>Transfer\<close>: unlock, then clear the flag.\<close>

definition Transfer_deferred :: "session \<Rightarrow> session" where
  "Transfer_deferred s =
     (let s = s\<lparr>serverMu := MuFree\<rparr>;
          s = s\<lparr>transferring := False\<rparr>
      in s)"

text \<open>\<open>s.transferring.CompareAndSwap(false, true)\<close>: the result and the session after it.\<close>

definition transferring_CompareAndSwap :: "session \<Rightarrow> bool \<times> session" where
  "transferring_CompareAndSwap s =
     (if transferring s = False then (True, s\<lparr>transferring := True\<rparr>) else (False, s))"

text \<open>
  What follows the flag check: \<open>Lock()\<close>, which waits while the lock is not free (a call
  on its own then never returns), the body, and the deferred function, which also runs when
  the body panics.
\<close>

definition Transfer_after_check ::
  "string + server_conn \<Rightarrow> string \<Rightarrow> session \<Rightarrow> outcome \<times> session" where
  "Transfer_after_check dialed addr s =
     (if serverMu s \<noteq> MuFree then (Blocked, s)
      else
        (let s = s\<lparr>serverMu := MuWrite\<rparr>;
             (r, s) = Transfer_locked dialed addr s
         in if r = Blocked then (Blocked, s) else (r, Transfer_deferred s)))"

definition Transfer :: "string + server_conn \<Rightarrow> string \<Rightarrow> session \<Rightarrow> outcome \<times> session" where
  "Transfer dialed addr s =
     (case transferring_CompareAndSwap s of
        (False, s) \<Rightarrow> (Returned (Some ''already transferring''), s)
      | (True, s) \<Rightarrow> Transfer_after_check dialed addr s)"

section \<open>Runs of several calls\<close>

text \<open>
  The goroutine that \<open>NewSession\<close> started, read back from the trace with the address and
  the interval its closure captured, and its run on the session. A session that started no
  goroutine stays as it is.
\<close>

fun started_goroutine :: "event list \<Rightarrow> (string \<times> int64) option" where
  "started_goroutine [] = None"
| "started_goroutine (Go (Startup addr latencyInterval) # es) = Some (addr, latencyInterval)"
| "started_goroutine (e # es) = started_goroutine es"

definition run_startup :: "string + server_conn \<Rightarrow> string option \<Rightarrow> session \<Rightarrow> session option" where
  "run_startup dialed started s =
     (case started_goroutine (trace s) of
        None \<Rightarrow> Some s
      | Some (addr, latencyInterval) \<Rightarrow> NewSession_go dialed started addr latencyInterval s)"

text \<open>
  Calls of \<open>Transfer\<close> made one after the other on one session: each call comes with its
  address and with what its dial returns. A call that panics or never returns ends the run.
\<close>

fun Transfers ::
  "((string + server_conn) \<times> string) list \<Rightarrow> session \<Rightarrow> outcome list \<times> session" where
  "Transfers [] s = ([], s)"
| "Transfers ((dialed, addr) # calls) s =
     (case Transfer dialed addr s of
        (Returned e, s') \<Rightarrow>
          (case Transfers calls s' of (rs, s'') \<Rightarrow> (Returned e # rs, s''))
      | (r, s') \<Rightarrow> ([r], s'))"

text \<open>
  The address of the most recent call that returned nil, or \<open>init\<close> when there is none:
  the calls' addresses are paired with their outcomes.
\<close>

fun most_recent_success :: "string \<Rightarrow> (string \<times> outcome) list \<Rightarrow> string" where
  "most_recent_success init [] = init"
| "most_recent_success init ((addr, r) # rest) =
     most_recent_success (if r = Returned None then addr else init) rest"

text \<open>Calls that end in \<open>Close\<close>: \<open>Close\<close> itself, or \<open>Disconnect\<close> with its message.\<close>

datatype close_call = ViaClose | ViaDisconnect string

fun close_call_run :: "close_call \<Rightarrow> session \<Rightarrow> session option" where
  "close_call_run ViaClose s = Close s"
| "close_call_run (ViaDisconnect message) s = Disconnect_session message s"

fun close_calls_run :: "close_call list \<Rightarrow> session \<Rightarrow> session option" where
  "close_calls_run [] s = Some s"
| "close_calls_run (c # cs) s = Option.bind (close_call_run c s) (close_calls_run cs)"

text \<open>The events a call appended to the trace.\<close>

definition events_since :: "session \<Rightarrow> session \<Rightarrow> event list" where
  "events_since s s' = drop (length (trace s)) (trace s')"

text \<open>The events of the body of \<open>Close\<close>, as opposed to the packet \<open>Disconnect\<close> writes.\<close>

fun is_teardown :: "event \<Rightarrow> bool" where
  "is_teardown ClientClose = True"
| "is_teardown (ServerClose c) = True"
| "is_teardown (RegistryRemove x) = True"
| "is_teardown (LogInfo m) = True"
| "is_teardown e = False"

subsection \<open>Concurrent calls of Transfer\<close>

text \<open>
  Several goroutines call \<open>Transfer\<close> on one session. A call is pending (not yet at the
  flag check), past the check, or finished. The scheduler picks a call and lets it take its
  next step: the compare-and-swap of the flag, which is atomic, or everything after it (a
  call that finds the lock taken waits, so its step changes nothing).
\<close>

datatype transfer_call =
    Pending "string + server_conn" string
  | PastCheck "string + server_conn" string
  | Finished outcome

fun past_check :: "transfer_call \<Rightarrow> bool" where
  "past_check (PastCheck d a) = True"
| "past_check c = False"

definition step_call :: "nat \<Rightarrow> session \<times> transfer_call list \<Rightarrow> session \<times> transfer_call list" where
  "step_call i cfg =
     (case cfg of (s, calls) \<Rightarrow>
        if i < length calls then
          (case calls ! i of
             Pending dialed addr \<Rightarrow>
               (case transferring_CompareAndSwap s of
                  (False, s') \<Rightarrow>
                    (s', calls[i := Finished (Returned (Some ''already transferring''))])
                | (True, s') \<Rightarrow> (s', calls[i := PastCheck dialed addr]))
           | PastCheck dialed addr \<Rightarrow>
               (case Transfer_after_check dialed addr s of
                  (Blocked, s') \<Rightarrow> (s, calls)
                | (r, s') \<Rightarrow> (s', calls[i := Finished r]))
           | Finished r \<Rightarrow> (s, calls))
        else (s, calls))"

definition run_schedule ::
  "nat list \<Rightarrow> session \<times> transfer_call list \<Rightarrow> session \<times> transfer_call list" where
  "run_schedule schedule cfg = fold step_call schedule cfg"

text \<open>
  The invariant of the scheduler: the number of calls past the flag check is one when the
  flag is set and zero when it is not.
\<close>

definition calls_inv :: "session \<times> transfer_call list \<Rightarrow> bool" where
  "calls_inv cfg =
     (case cfg of (s, calls) \<Rightarrow>
        length (filter past_check calls) = (if transferring s then 1 else 0))"

section \<open>The statements of the specification\<close>

text \<open>The events of one run of the body of \<open>Close\<close> on the session \<open>s\<close>.\<close>

definition teardown_events :: "session \<Rightarrow> event list" where
  "teardown_events s =
     [ClientClose]
     @ (case serverConn s of None \<Rightarrow> [] | Some c \<Rightarrow> [ServerClose c])
     @ [RegistryRemove (identity_XUID (clientConn s)),
        LogInfo (''Closed session for '' @ identity_DisplayName (clientConn s))]"

text \<open>
  The square of chunk positions of radius 4 around a centre: nine columns of nine
  positions.
\<close>

definition chunk_offsets :: "int list" where
  "chunk_offsets = [-4..4]"

definition chunk_square :: "int32 \<Rightarrow> int32 \<Rightarrow> (int32 \<times> int32) list" where
  "chunk_square chunkX chunkZ =
     map (\<lambda>(i, j). (chunkX + word_of_int i, chunkZ + word_of_int j))
       (List.product chunk_offsets chunk_offsets)"

text \<open>
  The chunk that contains a coordinate: chunks are 16 blocks wide. A coordinate fits
  \<open>int32\<close> when it lies between the smallest and the largest \<open>int32\<close>. A coordinate lies
  just below a chunk boundary when it is negative, has a fraction, and is less than one
  block below a multiple of 16.
\<close>

definition chunk_containing :: "real \<Rightarrow> int" where
  "chunk_containing r = \<lfloor>r / 16\<rfloor>"

definition fits_int32 :: "real \<Rightarrow> bool" where
  "fits_int32 r = (- (2 ^ 31) \<le> r \<and> r < 2 ^ 31)"

definition just_below_boundary :: "real \<Rightarrow> bool" where
  "just_below_boundary r = (r < 0 \<and> of_int \<lfloor>r\<rfloor> \<noteq> r \<and> \<lceil>r\<rceil> mod 16 = 0)"

text \<open>
  The flood for the game data of the new backend: one chunk packet for each position of the
  square around the chunk coordinates the code computes, each tagged with the Nether and
  carrying the empty payload built for the dimension of the new backend.
\<close>

definition flood_events :: "game_data \<Rightarrow> event list" where
  "flood_events gd =
     map (\<lambda>p. ClientWrite (LevelChunk DimensionNether p 1 (emptyChunk (Dimension gd))))
       (chunk_square (chunkX_of gd) (chunkZ_of gd))"

text \<open>
  The steps 3 to 13 of section 4.2 of the specification, for a session \<open>s\<close> on the backend
  connection \<open>old\<close> that is transferred to \<open>addr\<close>, where the dial returned \<open>conn\<close>.
\<close>

definition transfer_events :: "session \<Rightarrow> string \<Rightarrow> server_conn \<Rightarrow> server_conn \<Rightarrow> event list" where
  "transfer_events s addr old conn =
     (let gd = conn_GameData conn in
        [ClientWrite (SetActorData (EntityRuntimeID (client_GameData (clientConn s)))
           [EntityDataFlagNoAI, EntityDataFlagBreathing, EntityDataFlagHasGravity])]
      @ [Dial addr, ServerGameData conn]
      @ [AnimationPlay (animation s) gd]
      @ flood_events gd
      @ [TrackerClear Effects, TrackerClear Entities, TrackerClear BossBars,
         TrackerClear Players, TrackerClear Scoreboards]
      @ [ClientWrite (MovePlayer (EntityRuntimeID gd) (PlayerPosition gd) (Pitch gd) (Yaw gd)
           MoveModeReset),
         ClientWrite (LevelEvent LevelEventStopRaining 10000),
         ClientWrite (LevelEvent LevelEventStopThunderstorm 0),
         ClientWrite (SetDifficulty (Difficulty gd)),
         ClientWrite (SetPlayerGameType (PlayerGameMode gd)),
         ClientWrite (GameRulesChanged (GameRules gd))]
      @ [AnimationClear (animation s) gd]
      @ [ServerClose old]
      @ [SetServerAddr addr, SetServerConn (Some conn)]
      @ [ServerReadDeferred conn]
      @ map ClientWrite (conn_Deferred conn)
      @ [LogDebug (''Transferred session for '' @ identity_DisplayName (clientConn s)
           @ '' to '' @ addr)])"

section \<open>Concrete sessions\<close>

definition overworld_data :: game_data where
  "overworld_data =
     \<lparr>EntityRuntimeID = 7, Dimension = 0,
      PlayerPosition = (Finite 8, Finite 64, Finite (- 20)), Pitch = Finite 0, Yaw = Finite 90,
      Difficulty = 2, PlayerGameMode = 0, GameRules = [''showcoordinates'']\<rparr>"

definition nether_data :: game_data where
  "nether_data =
     \<lparr>EntityRuntimeID = 9, Dimension = 1,
      PlayerPosition = (Finite 0, Finite 70, Finite 0), Pitch = Finite 0, Yaw = Finite 0,
      Difficulty = 1, PlayerGameMode = 1, GameRules = []\<rparr>"

definition player :: client_conn where
  "player = \<lparr>client_GameData = overworld_data, identity_XUID = ''2535'',
     identity_DisplayName = ''Steve''\<rparr>"

definition conn_A :: server_conn where
  "conn_A = \<lparr>conn_id = 1, conn_GameData = overworld_data, conn_Deferred = [BackendPacket 10]\<rparr>"

definition conn_B :: server_conn where
  "conn_B = \<lparr>conn_id = 2, conn_GameData = nether_data,
     conn_Deferred = [BackendPacket 20, BackendPacket 21]\<rparr>"

text \<open>
  A session that started on backend A, and a session without a backend connection, as the
  startup goroutine has it when the first dial has failed and \<open>Close\<close> is about to run.
\<close>

definition session_A :: session where
  "session_A =
     \<lparr>clientConn = player, serverAddr = ''A'', serverConn = Some conn_A, serverMu = MuFree,
      handler = NoopHandler, animation = DimensionAnimation, latency = 0, once = False,
      transferring = False, trace = []\<rparr>"

definition session_undialed :: session where
  "session_undialed =
     \<lparr>clientConn = player, serverAddr = ''A'', serverConn = None, serverMu = MuFree,
      handler = NoopHandler, animation = DimensionAnimation, latency = 0, once = False,
      transferring = False, trace = []\<rparr>"

section \<open>Auxiliary facts\<close>

subsection \<open>The trace\<close>

lemma emit_fields [simp]:
  "trace (emit e s) = trace s @ [e]"
  "clientConn (emit e s) = clientConn s"
  "serverAddr (emit e s) = serverAddr s"
  "serverConn (emit e s) = serverConn s"
  "serverMu (emit e s) = serverMu s"
  "handler (emit e s) = handler s"
  "animation (emit e s) = animation s"
  "latency (emit e s) = latency s"
  "once (emit e s) = once s"
  "transferring (emit e s) = transferring s"
  by (simp_all add: emit_def)

lemma emit_eq: "emit e s = s\<lparr>trace := trace s @ [e]\<rparr>"
  by (simp add: emit_def)

lemma fold_WritePacket: "fold WritePacket pks s = s\<lparr>trace := trace s @ map ClientWrite pks\<rparr>"
  by (induction pks arbitrary: s) (simp_all add: WritePacket_def emit_def)

lemma sendMetadata_eq:
  "sendMetadata noAI s = s\<lparr>trace := trace s @ [ClientWrite (SetActorData (EntityRuntimeID (client_GameData (clientConn s)))
      ((if noAI then [EntityDataFlagNoAI] else []) @ [EntityDataFlagBreathing, EntityDataFlagHasGravity]))]\<rparr>"
  by (simp add: sendMetadata_def WritePacket_def emit_def)

subsection \<open>The chunk flood ends\<close>

text \<open>
  A chunk coordinate is an \<open>int32\<close> shifted right by 4, so the bounds of both loops stay
  far from the ends of \<open>int32\<close>: no counter wraps and each loop runs nine times.
\<close>

lemma sint_chunk_bounds:
  fixes w :: int32
  shows "- (2 ^ 27) \<le> sint (signed_drop_bit 4 w)" "sint (signed_drop_bit 4 w) < 2 ^ 27"
proof -
  have "- (2 ^ 31) \<le> sint w" "sint w < 2 ^ 31"
    using sint_ge [of w] sint_lt [of w] by simp_all
  then show "- (2 ^ 27) \<le> sint (signed_drop_bit 4 w)" "sint (signed_drop_bit 4 w) < 2 ^ 27"
    by (simp_all add: sint_signed_drop_bit_eq drop_bit_eq_div)
qed

lemma sint_add_small:
  fixes c :: int32
  assumes "- (2 ^ 31) \<le> sint c + k" "sint c + k < 2 ^ 31"
  shows "sint (c + word_of_int k) = sint c + k"
proof -
  have "sint (c + word_of_int k) = signed_take_bit 31 (sint c + signed_take_bit 31 k)"
    by (simp add: sint_word_add sint_sbintrunc')
  also have "\<dots> = signed_take_bit 31 (signed_take_bit 31 (sint c) + signed_take_bit 31 k)"
    using sint_ge [of c] sint_lt [of c] by (simp add: signed_take_bit_int_eq_self)
  also have "\<dots> = signed_take_bit 31 (sint c + k)"
    by (simp only: signed_take_bit_add)
  finally show ?thesis using assms by (simp add: signed_take_bit_int_eq_self)
qed

lemma flood_z_run:
  assumes "sint (chunkZ + 4) < 2 ^ 31 - 1" "sint z \<le> sint (chunkZ + 4) + 1"
  shows "flood_z chunk x z chunkZ s =
    Some (s\<lparr>trace := trace s @
      map (\<lambda>k. ClientWrite (LevelChunk DimensionNether (x, word_of_int k) 1 chunk))
        [sint z..sint (chunkZ + 4)]\<rparr>)"
  using assms
proof (induction "nat (sint (chunkZ + 4) + 1 - sint z)" arbitrary: z s)
  case 0
  then have "\<not> z \<le>s chunkZ + 4" by (simp add: word_sle_eq)
  moreover have "[sint z..sint (chunkZ + 4)] = []" using 0 by simp
  ultimately show ?case by (subst flood_z.simps) simp
next
  case (Suc n)
  then have le: "z \<le>s chunkZ + 4" by (simp add: word_sle_eq)
  then have zb: "sint z \<le> sint (chunkZ + 4)" by (simp add: word_sle_eq)
  have "sint (z + word_of_int 1) = sint z + 1"
    using zb Suc.prems(1) sint_ge [of z] by (intro sint_add_small) simp_all
  then have s1: "sint (z + 1) = sint z + 1" by simp
  have "flood_z chunk x z chunkZ s = flood_z chunk x (z + 1) chunkZ
             (WritePacket (LevelChunk DimensionNether (x, z) 1 chunk) s)"
    using le by (subst flood_z.simps) simp
  also have "\<dots> = Some ((WritePacket (LevelChunk DimensionNether (x, z) 1 chunk) s)\<lparr>trace :=
      trace (WritePacket (LevelChunk DimensionNether (x, z) 1 chunk) s) @
      map (\<lambda>k. ClientWrite (LevelChunk DimensionNether (x, word_of_int k) 1 chunk))
        [sint (z + 1)..sint (chunkZ + 4)]\<rparr>)"
    using Suc.hyps(2) Suc.prems zb s1 by (intro Suc.hyps(1)) simp_all
  also have "\<dots> = Some (s\<lparr>trace := trace s @
      map (\<lambda>k. ClientWrite (LevelChunk DimensionNether (x, word_of_int k) 1 chunk))
        [sint z..sint (chunkZ + 4)]\<rparr>)"
    using zb s1 by (simp add: WritePacket_def emit_def upto_rec1 [of "sint z"])
  finally show ?case .
qed


lemma flood_x_run:
  assumes "sint (chunkZ + 4) < 2 ^ 31 - 1" "sint (chunkZ - 4) \<le> sint (chunkZ + 4) + 1"
    and "sint (chunkX + 4) < 2 ^ 31 - 1" "sint x \<le> sint (chunkX + 4) + 1"
  shows "flood_x chunk x chunkX chunkZ s =
    Some (s\<lparr>trace := trace s @
      concat (map (\<lambda>i. map (\<lambda>k. ClientWrite (LevelChunk DimensionNether (word_of_int i, word_of_int k) 1 chunk))
        [sint (chunkZ - 4)..sint (chunkZ + 4)]) [sint x..sint (chunkX + 4)])\<rparr>)"
  using assms(3,4)
proof (induction "nat (sint (chunkX + 4) + 1 - sint x)" arbitrary: x s)
  case 0
  then have "\<not> x \<le>s chunkX + 4" by (simp add: word_sle_eq)
  moreover have "[sint x..sint (chunkX + 4)] = []" using 0 by simp
  ultimately show ?case by (subst flood_x.simps) simp
next
  case (Suc n)
  then have le: "x \<le>s chunkX + 4" by (simp add: word_sle_eq)
  then have xb: "sint x \<le> sint (chunkX + 4)" by (simp add: word_sle_eq)
  have "sint (x + word_of_int 1) = sint x + 1"
    using xb Suc.prems(1) sint_ge [of x] by (intro sint_add_small) simp_all
  then have s1: "sint (x + 1) = sint x + 1" by simp
  let ?row = "map (\<lambda>k. ClientWrite (LevelChunk DimensionNether (x, word_of_int k) 1 chunk))
        [sint (chunkZ - 4)..sint (chunkZ + 4)]"
  have "flood_x chunk x chunkX chunkZ s =
      Option.bind (flood_z chunk x (chunkZ - 4) chunkZ s) (\<lambda>s. flood_x chunk (x + 1) chunkX chunkZ s)"
    using le by (subst flood_x.simps) simp
  also have "\<dots> = flood_x chunk (x + 1) chunkX chunkZ (s\<lparr>trace := trace s @ ?row\<rparr>)"
    by (simp add: flood_z_run [OF assms(1,2)])
  also have "\<dots> = Some ((s\<lparr>trace := trace s @ ?row\<rparr>)\<lparr>trace := trace (s\<lparr>trace := trace s @ ?row\<rparr>) @
      concat (map (\<lambda>i. map (\<lambda>k. ClientWrite (LevelChunk DimensionNether (word_of_int i, word_of_int k) 1 chunk))
        [sint (chunkZ - 4)..sint (chunkZ + 4)]) [sint (x + 1)..sint (chunkX + 4)])\<rparr>)"
    using Suc.hyps(2) Suc.prems xb s1 by (intro Suc.hyps(1)) simp_all
  also have "\<dots> = Some (s\<lparr>trace := trace s @
      concat (map (\<lambda>i. map (\<lambda>k. ClientWrite (LevelChunk DimensionNether (word_of_int i, word_of_int k) 1 chunk))
        [sint (chunkZ - 4)..sint (chunkZ + 4)]) [sint x..sint (chunkX + 4)])\<rparr>)"
    using xb s1 by (simp add: upto_rec1 [of "sint x"])
  finally show ?case .
qed

lemma upto_shift: "[a + i..a + j] = map (\<lambda>k. a + k) [i..j]"
proof (induction "nat (j + 1 - i)" arbitrary: i)
  case 0
  then show ?case by simp
next
  case (Suc n)
  then have "i \<le> j" by simp
  then have "[a + i..a + j] = (a + i) # [a + (i + 1)..a + j]"
    by (simp add: upto_rec1 [of "a + i"] add.assoc)
  also have "[a + (i + 1)..a + j] = map (\<lambda>k. a + k) [i + 1..j]"
    using Suc.hyps(2) by (intro Suc.hyps(1)) simp
  finally show ?case using \<open>i \<le> j\<close> by (simp add: upto_rec1 [of i])
qed

lemma chunk_range:
  fixes w :: int32
  defines "c \<equiv> signed_drop_bit 4 w"
  shows "sint (c + 4) = sint c + 4" "sint (c - 4) = sint c - 4"
    "[sint (c - 4)..sint (c + 4)] = map (\<lambda>k. sint c + k) [-4..4]"
proof -
  have b: "- (2 ^ 27) \<le> sint c" "sint c < 2 ^ 27"
    unfolding c_def by (rule sint_chunk_bounds)+
  have "sint (c + word_of_int 4) = sint c + 4"
    using b by (intro sint_add_small) simp_all
  then show p: "sint (c + 4) = sint c + 4" by simp
  have "sint (c + word_of_int (- 4)) = sint c + (- 4)"
    using b by (intro sint_add_small) simp_all
  then show m: "sint (c - 4) = sint c - 4" by simp
  show "[sint (c - 4)..sint (c + 4)] = map (\<lambda>k. sint c + k) [-4..4]"
    using upto_shift [of "sint c" "- 4" 4] by (simp add: p m)
qed

lemma chunk_flood_eq:
  "chunk_flood gd s = Some (s\<lparr>trace := trace s @ flood_events gd\<rparr>)"
proof -
  define chunk where "chunk = emptyChunk (Dimension gd)"
  define wx where "wx = int32_of_float32 (vec_X (PlayerPosition gd))"
  define wz where "wz = int32_of_float32 (vec_Z (PlayerPosition gd))"
  define chunkX where "chunkX = signed_drop_bit 4 wx"
  define chunkZ where "chunkZ = signed_drop_bit 4 wz"
  have bx: "- (2 ^ 27) \<le> sint chunkX" "sint chunkX < 2 ^ 27"
    and bz: "- (2 ^ 27) \<le> sint chunkZ" "sint chunkZ < 2 ^ 27"
    unfolding chunkX_def chunkZ_def by (rule sint_chunk_bounds)+
  note rx = chunk_range [of wx, folded chunkX_def]
  note rz = chunk_range [of wz, folded chunkZ_def]
  have "flood_x chunk (chunkX - 4) chunkX chunkZ s =
    Some (s\<lparr>trace := trace s @
      concat (map (\<lambda>i. map (\<lambda>k. ClientWrite (LevelChunk DimensionNether (word_of_int i, word_of_int k) 1 chunk))
        [sint (chunkZ - 4)..sint (chunkZ + 4)]) [sint (chunkX - 4)..sint (chunkX + 4)])\<rparr>)"
    using bx bz by (intro flood_x_run) (simp_all add: rx(1,2) rz(1,2))
  also have "concat (map (\<lambda>i. map (\<lambda>k. ClientWrite (LevelChunk DimensionNether (word_of_int i, word_of_int k) 1 chunk))
        [sint (chunkZ - 4)..sint (chunkZ + 4)]) [sint (chunkX - 4)..sint (chunkX + 4)])
      = map (\<lambda>p. ClientWrite (LevelChunk DimensionNether p 1 chunk)) (chunk_square chunkX chunkZ)"
    by (simp only: rx(3) rz(3))
       (simp add: chunk_square_def chunk_offsets_def product_concat_map map_concat comp_def)
  finally show ?thesis
    by (simp add: chunk_flood_def flood_events_def chunkX_of_def chunkZ_of_def chunk_def
        wx_def wz_def chunkX_def chunkZ_def)
qed

subsection \<open>What Transfer returns\<close>

lemma Transfer_locked_dial_failed:
  "Transfer_locked (Inl err) addr s =
     (Returned (Some err),
      s\<lparr>trace := trace s @
        [ClientWrite (SetActorData (EntityRuntimeID (client_GameData (clientConn s)))
           [EntityDataFlagNoAI, EntityDataFlagBreathing, EntityDataFlagHasGravity]),
         Dial addr,
         ClientWrite (SetActorData (EntityRuntimeID (client_GameData (clientConn s)))
           [EntityDataFlagBreathing, EntityDataFlagHasGravity]),
         LogError (''Failed to dial server: '' @ err)]\<rparr>)"
  by (simp add: Transfer_locked_def sendMetadata_eq emit_def)

lemma Transfer_locked_success:
  assumes "serverConn s = Some old"
  shows "Transfer_locked (Inr conn) addr s =
     (Returned None,
      s\<lparr>serverAddr := addr, serverConn := Some conn,
        trace := trace s @ transfer_events s addr old conn\<rparr>)"
  using assms
  by (simp add: Transfer_locked_def sendMetadata_eq chunk_flood_eq serverConn_Close_def
      fold_WritePacket WritePacket_def emit_def transfer_events_def)
     (simp add: Let_def)

lemma Transfer_locked_nil_backend:
  assumes "serverConn s = None"
  shows "\<exists>es. Transfer_locked (Inr conn) addr s = (Panicked, s\<lparr>trace := trace s @ es\<rparr>)"
  using assms
  apply (simp add: Transfer_locked_def sendMetadata_eq chunk_flood_eq serverConn_Close_def
      fold_WritePacket WritePacket_def emit_def)
  apply (simp add: Let_def)
  apply (rule exI, rule refl)
  done

lemma Transfer_rejected:
  "transferring s \<Longrightarrow> Transfer dialed addr s = (Returned (Some ''already transferring''), s)"
  by (simp add: Transfer_def transferring_CompareAndSwap_def)

lemma Transfer_waits:
  "\<not> transferring s \<Longrightarrow> serverMu s \<noteq> MuFree \<Longrightarrow>
     Transfer dialed addr s = (Blocked, s\<lparr>transferring := True\<rparr>)"
  by (simp add: Transfer_def transferring_CompareAndSwap_def Transfer_after_check_def)

lemma Transfer_dial_failed:
  assumes "\<not> transferring s" "serverMu s = MuFree"
  shows "Transfer (Inl err) addr s =
     (Returned (Some err),
      s\<lparr>trace := trace s @
        [ClientWrite (SetActorData (EntityRuntimeID (client_GameData (clientConn s)))
           [EntityDataFlagNoAI, EntityDataFlagBreathing, EntityDataFlagHasGravity]),
         Dial addr,
         ClientWrite (SetActorData (EntityRuntimeID (client_GameData (clientConn s)))
           [EntityDataFlagBreathing, EntityDataFlagHasGravity]),
         LogError (''Failed to dial server: '' @ err)]\<rparr>)"
  using assms
  by (simp add: Transfer_def transferring_CompareAndSwap_def Transfer_after_check_def
      Transfer_locked_dial_failed Transfer_deferred_def)

lemma Transfer_success:
  assumes "\<not> transferring s" "serverMu s = MuFree" "serverConn s = Some old"
  shows "Transfer (Inr conn) addr s =
     (Returned None,
      s\<lparr>serverAddr := addr, serverConn := Some conn,
        trace := trace s @ transfer_events s addr old conn\<rparr>)"
  using assms
  by (simp add: Transfer_def transferring_CompareAndSwap_def Transfer_after_check_def
      Transfer_locked_success Transfer_deferred_def transfer_events_def)

lemma Transfer_nil_backend:
  assumes "\<not> transferring s" "serverMu s = MuFree" "serverConn s = None"
  shows "fst (Transfer (Inr conn) addr s) = Panicked"
    and "serverAddr (snd (Transfer (Inr conn) addr s)) = serverAddr s"
    and "serverConn (snd (Transfer (Inr conn) addr s)) = None"
    and "\<not> transferring (snd (Transfer (Inr conn) addr s))"
    and "serverMu (snd (Transfer (Inr conn) addr s)) = MuFree"
proof -
  let ?s = "s\<lparr>transferring := True, serverMu := MuWrite\<rparr>"
  from assms(3) obtain es where
    "Transfer_locked (Inr conn) addr ?s = (Panicked, ?s\<lparr>trace := trace ?s @ es\<rparr>)"
    using Transfer_locked_nil_backend [of ?s conn addr] by auto
  then have *: "Transfer (Inr conn) addr s = (Panicked, Transfer_deferred (?s\<lparr>trace := trace ?s @ es\<rparr>))"
    using assms(1,2)
    by (simp add: Transfer_def transferring_CompareAndSwap_def Transfer_after_check_def)
  show "fst (Transfer (Inr conn) addr s) = Panicked"
    and "serverAddr (snd (Transfer (Inr conn) addr s)) = serverAddr s"
    and "serverConn (snd (Transfer (Inr conn) addr s)) = None"
    and "\<not> transferring (snd (Transfer (Inr conn) addr s))"
    and "serverMu (snd (Transfer (Inr conn) addr s)) = MuFree"
    using assms(3) by (simp_all add: * Transfer_deferred_def)
qed

lemma Transfer_serverAddr:
  "serverAddr (snd (Transfer dialed addr s)) =
     (if fst (Transfer dialed addr s) = Returned None then addr else serverAddr s)"
proof (cases "transferring s")
  case True
  then show ?thesis by (simp add: Transfer_rejected)
next
  case nt: False
  show ?thesis
  proof (cases "serverMu s = MuFree")
    case False
    with nt show ?thesis by (simp add: Transfer_waits)
  next
    case free: True
    show ?thesis
    proof (cases dialed)
      case (Inl err)
      with nt free show ?thesis by (simp add: Transfer_dial_failed)
    next
      case (Inr conn)
      show ?thesis
      proof (cases "serverConn s")
        case None
        with nt free Inr show ?thesis by (simp add: Transfer_nil_backend)
      next
        case (Some old)
        with nt free Inr show ?thesis by (simp add: Transfer_success)
      qed
    qed
  qed
qed

lemma Transfer_releases:
  assumes "\<not> transferring s" "fst (Transfer dialed addr s) \<noteq> Blocked"
  shows "\<not> transferring (snd (Transfer dialed addr s)) \<and> serverMu (snd (Transfer dialed addr s)) = MuFree"
proof (cases "serverMu s = MuFree")
  case False
  with assms show ?thesis by (simp add: Transfer_waits)
next
  case free: True
  show ?thesis
  proof (cases dialed)
    case (Inl err)
    with assms free show ?thesis by (simp add: Transfer_dial_failed)
  next
    case (Inr conn)
    show ?thesis
    proof (cases "serverConn s")
      case None
      with assms free Inr show ?thesis by (simp add: Transfer_nil_backend)
    next
      case (Some old)
      with assms free Inr show ?thesis by (simp add: Transfer_success)
    qed
  qed
qed

lemma Transfers_serverAddr:
  "Transfers calls s = (rs, s') \<Longrightarrow>
     serverAddr s' = most_recent_success (serverAddr s) (zip (map snd calls) rs)"
proof (induction calls arbitrary: s rs s')
  case Nil
  then show ?case by simp
next
  case (Cons c calls)
  obtain dialed addr where c: "c = (dialed, addr)" by (cases c)
  obtain r s1 where t: "Transfer dialed addr s = (r, s1)" by (cases "Transfer dialed addr s")
  have a: "serverAddr s1 = (if r = Returned None then addr else serverAddr s)"
    using Transfer_serverAddr [of dialed addr s] t by simp
  show ?case
  proof (cases r)
    case (Returned e)
    obtain rs1 s2 where ts: "Transfers calls s1 = (rs1, s2)" by (cases "Transfers calls s1")
    from Cons.prems c t Returned ts have "rs = Returned e # rs1" "s' = s2" by simp_all
    moreover have "serverAddr s2 = most_recent_success (serverAddr s1) (zip (map snd calls) rs1)"
      using Cons.IH [OF ts] .
    ultimately show ?thesis using a c Returned by simp
  next
    case Panicked
    with Cons.prems c t have "rs = [Panicked]" "s' = s1" by simp_all
    then show ?thesis using a c Panicked by simp
  next
    case Blocked
    with Cons.prems c t have "rs = [Blocked]" "s' = s1" by simp_all
    then show ?thesis using a c Blocked by simp
  qed
qed

subsection \<open>Close and the startup goroutine\<close>

lemma Close_eq:
  "Close s = Some (if once s then s else s\<lparr>once := True, trace := trace s @ teardown_events s\<rparr>)"
  by (simp add: Close_def serverConn_Close_def emit_def teardown_events_def Let_def
      split: option.splits)

lemma Disconnect_session_eq:
  "Disconnect_session message s =
     Some (if once s then s\<lparr>trace := trace s @ [ClientWrite (Disconnect message)]\<rparr>
           else s\<lparr>once := True,
                  trace := trace s @ ClientWrite (Disconnect message) # teardown_events s\<rparr>)"
  by (simp add: Disconnect_session_def Close_eq WritePacket_def emit_def teardown_events_def)

lemma NewSession_eq:
  "NewSession cc addr li =
     (\<lparr>clientConn = cc, serverAddr = [], serverConn = None, serverMu = MuFree,
       handler = NoopHandler, animation = DimensionAnimation, latency = 0,
       once = False, transferring = False, trace = [Go (Startup addr li)]\<rparr>, None)"
  by (simp add: NewSession_def emit_def)

lemma NewSession_go_dial_failed:
  "\<not> once s \<Longrightarrow> NewSession_go (Inl err) started addr li s =
     Some (s\<lparr>serverAddr := addr, serverConn := None, once := True,
        trace := trace s @
          [Dial addr, SetServerAddr addr, SetServerConn None, ClientClose,
           RegistryRemove (identity_XUID (clientConn s)),
           LogInfo (''Closed session for '' @ identity_DisplayName (clientConn s)),
           LogError (''Failed to dial server: '' @ err)]\<rparr>)"
  by (simp add: NewSession_go_def Close_eq emit_def teardown_events_def)

lemma NewSession_go_start_failed:
  "\<not> once s \<Longrightarrow> NewSession_go (Inr conn) (Some err) addr li s =
     Some (s\<lparr>clientConn := (clientConn s)\<lparr>client_GameData := conn_GameData conn\<rparr>,
        serverAddr := addr, serverConn := Some conn, once := True,
        trace := trace s @
          [Dial addr, SetServerAddr addr, SetServerConn (Some conn), ServerGameData conn,
           ClientStartGame (conn_GameData conn), ClientClose, ServerClose conn,
           RegistryRemove (identity_XUID (clientConn s)),
           LogInfo (''Closed session for '' @ identity_DisplayName (clientConn s)),
           LogError (''Failed to start game timeout: '' @ err)]\<rparr>)"
  by (simp add: NewSession_go_def StartGame_def Close_eq emit_def teardown_events_def)

lemma NewSession_go_started:
  "NewSession_go (Inr conn) None addr li s =
     Some (s\<lparr>clientConn := (clientConn s)\<lparr>client_GameData := conn_GameData conn\<rparr>,
        serverAddr := addr, serverConn := Some conn,
        trace := trace s @
          [Dial addr, SetServerAddr addr, SetServerConn (Some conn), ServerGameData conn,
           ClientStartGame (conn_GameData conn),
           ClientWrite (SetActorData (EntityRuntimeID (conn_GameData conn))
             [EntityDataFlagNoAI, EntityDataFlagBreathing, EntityDataFlagHasGravity]),
           ServerReadDeferred conn]
          @ map ClientWrite (conn_Deferred conn)
          @ [Go HandleIncoming, Go HandleOutgoing, Go (HandleLatency li),
             RegistryAdd (identity_XUID (clientConn s)),
             LogInfo (''Successfully started session for ''
               @ identity_DisplayName (clientConn s))]\<rparr>)"
  by (simp add: NewSession_go_def StartGame_def sendMetadata_eq fold_WritePacket emit_def)

lemma NewSession_go_serverAddr:
  "\<exists>s'. NewSession_go dialed started addr li s = Some s' \<and> serverAddr s' = addr"
  apply (cases dialed; cases started)
     apply (simp_all add: NewSession_go_def StartGame_def Close_eq sendMetadata_eq
        fold_WritePacket emit_def)
    apply (simp_all add: Let_def)
  done

lemma run_startup_NewSession:
  "run_startup dialed started (fst (NewSession cc addr li))
     = NewSession_go dialed started addr li (fst (NewSession cc addr li))"
  by (simp add: run_startup_def NewSession_eq)

subsection \<open>The scheduler keeps its invariant\<close>

lemma filter_past_check_update:
  "i < length calls \<Longrightarrow>
     length (filter past_check (calls[i := c])) + (if past_check (calls ! i) then 1 else 0)
       = length (filter past_check calls) + (if past_check c then 1 else 0)"
proof (induction calls arbitrary: i)
  case Nil
  then show ?case by simp
next
  case (Cons x xs)
  show ?case
  proof (cases i)
    case 0
    then show ?thesis by simp
  next
    case (Suc j)
    with Cons.prems have "j < length xs" by simp
    from Cons.IH [OF this] show ?thesis using Suc by simp
  qed
qed

lemma Transfer_after_check_releases:
  assumes "Transfer_after_check dialed addr s = (r, s')" "r \<noteq> Blocked"
  shows "\<not> transferring s'" "serverMu s' = MuFree"
  using assms
  by (auto simp: Transfer_after_check_def Transfer_deferred_def Let_def
      split: if_splits prod.splits)

lemma Transfer_split:
  "Transfer dialed addr s =
     (if transferring s then (Returned (Some ''already transferring''), s)
      else Transfer_after_check dialed addr (s\<lparr>transferring := True\<rparr>))"
  by (simp add: Transfer_def transferring_CompareAndSwap_def)

lemma step_call_inv:
  assumes "calls_inv cfg"
  shows "calls_inv (step_call i cfg)"
proof -
  obtain s calls where cfg: "cfg = (s, calls)" by (cases cfg)
  from assms cfg have inv: "length (filter past_check calls) = (if transferring s then 1 else 0)"
    by (simp add: calls_inv_def)
  show ?thesis
  proof (cases "i < length calls")
    case False
    then show ?thesis using assms cfg by (simp add: step_call_def)
  next
    case i: True
    show ?thesis
    proof (cases "calls ! i")
      case (Pending dialed addr)
      show ?thesis
      proof (cases "transferring s")
        case True
        have "length (filter past_check
                (calls[i := Finished (Returned (Some ''already transferring''))]))
              = length (filter past_check calls)"
          using filter_past_check_update
            [OF i, of "Finished (Returned (Some ''already transferring''))"] Pending
          by simp
        then show ?thesis using cfg i Pending True inv
          by (simp add: step_call_def transferring_CompareAndSwap_def calls_inv_def)
      next
        case False
        have "length (filter past_check (calls[i := PastCheck dialed addr]))
              = length (filter past_check calls) + 1"
          using filter_past_check_update [OF i, of "PastCheck dialed addr"] Pending by simp
        then show ?thesis using cfg i Pending False inv
          by (simp add: step_call_def transferring_CompareAndSwap_def calls_inv_def)
      qed
    next
      case (PastCheck dialed addr)
      obtain r s' where t: "Transfer_after_check dialed addr s = (r, s')"
        by (cases "Transfer_after_check dialed addr s")
      show ?thesis
      proof (cases "r = Blocked")
        case True
        then show ?thesis using cfg i PastCheck t assms by (simp add: step_call_def)
      next
        case False
        then have rel: "\<not> transferring s'" using Transfer_after_check_releases [OF t] by simp
        have "length (filter past_check (calls[i := Finished r])) + 1
              = length (filter past_check calls)"
          using filter_past_check_update [OF i, of "Finished r"] PastCheck by simp
        moreover have "length (filter past_check calls) \<le> 1" using inv by (simp split: if_splits)
        ultimately have "length (filter past_check (calls[i := Finished r])) = 0" by linarith
        moreover have "step_call i cfg = (s', calls[i := Finished r])"
          using cfg i PastCheck t False by (cases r) (simp_all add: step_call_def)
        ultimately show ?thesis using rel by (simp add: calls_inv_def)
      qed
    next
      case (Finished r)
      then show ?thesis using cfg i assms by (simp add: step_call_def)
    qed
  qed
qed

lemma run_schedule_inv:
  "calls_inv cfg \<Longrightarrow> calls_inv (run_schedule schedule cfg)"
  unfolding run_schedule_def
  by (induction schedule arbitrary: cfg) (simp_all add: step_call_inv)

subsection \<open>Runs of Close and Disconnect\<close>

lemma events_since_append [simp]:
  "trace s' = trace s @ es \<Longrightarrow> events_since s s' = es"
  by (simp add: events_since_def)

lemma filter_teardown_events: "filter is_teardown (teardown_events s) = teardown_events s"
  by (simp add: teardown_events_def split: option.splits)

lemma close_call_run_closed:
  assumes "once s"
  shows "\<exists>es. close_call_run c s = Some (s\<lparr>trace := trace s @ es\<rparr>) \<and> filter is_teardown es = []"
proof (cases c)
  case ViaClose
  have "close_call_run c s = Some (s\<lparr>trace := trace s @ []\<rparr>)"
    using assms ViaClose by (simp add: Close_eq)
  then show ?thesis by (intro exI [of _ "[]"]) simp
next
  case (ViaDisconnect message)
  have "close_call_run c s = Some (s\<lparr>trace := trace s @ [ClientWrite (Disconnect message)]\<rparr>)"
    using assms ViaDisconnect by (simp add: Disconnect_session_eq)
  then show ?thesis by (intro exI [of _ "[ClientWrite (Disconnect message)]"]) simp
qed

lemma close_calls_run_closed:
  "once s \<Longrightarrow>
     \<exists>es. close_calls_run cs s = Some (s\<lparr>trace := trace s @ es\<rparr>) \<and> filter is_teardown es = []"
proof (induction cs arbitrary: s)
  case Nil
  have "close_calls_run [] s = Some (s\<lparr>trace := trace s @ []\<rparr>)" by simp
  then show ?case by (intro exI [of _ "[]"]) simp
next
  case (Cons c cs)
  from close_call_run_closed [OF Cons.prems, of c] obtain es1 where
    c: "close_call_run c s = Some (s\<lparr>trace := trace s @ es1\<rparr>)" and f1: "filter is_teardown es1 = []"
    by blast
  have "once (s\<lparr>trace := trace s @ es1\<rparr>)" using Cons.prems by simp
  from Cons.IH [OF this] obtain es2 where
    r: "close_calls_run cs (s\<lparr>trace := trace s @ es1\<rparr>) = Some (s\<lparr>trace := trace s @ es1 @ es2\<rparr>)"
    and f2: "filter is_teardown es2 = []"
    by auto
  have "close_calls_run (c # cs) s = Some (s\<lparr>trace := trace s @ (es1 @ es2)\<rparr>)"
    using c r by simp
  moreover have "filter is_teardown (es1 @ es2) = []" using f1 f2 by simp
  ultimately show ?case by blast
qed

lemma close_calls_run_open:
  assumes "\<not> once s" "calls \<noteq> []"
  shows "\<exists>es. close_calls_run calls s = Some (s\<lparr>once := True, trace := trace s @ es\<rparr>)
           \<and> filter is_teardown es = teardown_events s"
proof -
  from assms(2) obtain c cs where calls: "calls = c # cs" by (cases calls) auto
  obtain es1 where
    c: "close_call_run c s = Some (s\<lparr>once := True, trace := trace s @ es1\<rparr>)"
    and f1: "filter is_teardown es1 = teardown_events s"
  proof (cases c)
    case ViaClose
    have "close_call_run c s = Some (s\<lparr>once := True, trace := trace s @ teardown_events s\<rparr>)"
      using assms(1) ViaClose by (simp add: Close_eq)
    then show ?thesis using that filter_teardown_events by blast
  next
    case (ViaDisconnect message)
    have "close_call_run c s = Some (s\<lparr>once := True,
            trace := trace s @ ClientWrite (Disconnect message) # teardown_events s\<rparr>)"
      using assms(1) ViaDisconnect by (simp add: Disconnect_session_eq)
    moreover have "filter is_teardown (ClientWrite (Disconnect message) # teardown_events s)
        = teardown_events s"
      by (simp add: filter_teardown_events)
    ultimately show ?thesis using that by blast
  qed
  have "once (s\<lparr>once := True, trace := trace s @ es1\<rparr>)" by simp
  from close_calls_run_closed [OF this, of cs] obtain es2 where
    r: "close_calls_run cs (s\<lparr>once := True, trace := trace s @ es1\<rparr>)
          = Some (s\<lparr>once := True, trace := trace s @ es1 @ es2\<rparr>)"
    and f2: "filter is_teardown es2 = []"
    by auto
  have "close_calls_run calls s = Some (s\<lparr>once := True, trace := trace s @ (es1 @ es2)\<rparr>)"
    using calls c r by simp
  moreover have "filter is_teardown (es1 @ es2) = teardown_events s" using f1 f2 by simp
  ultimately show ?thesis by blast
qed

lemma Close_again:
  "once s \<Longrightarrow> close_calls_run (replicate n ViaClose) s = Some s"
  by (induction n) (simp_all add: Close_eq)

lemma Close_n_times:
  "0 < n \<Longrightarrow> close_calls_run (replicate n ViaClose) s = Close s"
proof -
  assume "0 < n"
  then obtain k where n: "n = Suc k" by (cases n) auto
  obtain s1 where c: "Close s = Some s1" and o: "once s1"
    by (cases "once s") (simp_all add: Close_eq)
  show ?thesis using n c Close_again [OF o, of k] by simp
qed

subsection \<open>Transfers that return nil\<close>

lemma Transfer_returns:
  assumes "\<not> transferring s" "serverMu s = MuFree"
  shows "fst (Transfer dialed addr s) \<noteq> Blocked"
proof (cases dialed)
  case (Inl err)
  with assms show ?thesis by (simp add: Transfer_dial_failed)
next
  case (Inr conn)
  show ?thesis
  proof (cases "serverConn s")
    case None
    with assms Inr show ?thesis by (simp add: Transfer_nil_backend)
  next
    case (Some old)
    with assms Inr show ?thesis by (simp add: Transfer_success)
  qed
qed

lemma count_list_map_other:
  "(\<And>p. f p \<noteq> e) \<Longrightarrow> count_list (map f ps) e = 0"
  by (induction ps) simp_all

lemma length_chunk_offsets: "length chunk_offsets = 9"
  by (simp add: chunk_offsets_def)

lemma distinct_chunk_offsets: "distinct chunk_offsets"
  by (simp only: chunk_offsets_def distinct_upto)

lemma length_chunk_square: "length (chunk_square chunkX chunkZ) = 81"
  by (simp add: chunk_square_def length_chunk_offsets)

lemma length_flood_events: "length (flood_events gd) = 81"
  by (simp add: flood_events_def length_chunk_square)

lemma count_flood_events:
  "(\<And>pk. e \<noteq> ClientWrite pk) \<Longrightarrow> count_list (flood_events gd) e = 0"
  unfolding flood_events_def by (rule count_list_map_other) auto

lemma count_deferred:
  "(\<And>pk. e \<noteq> ClientWrite pk) \<Longrightarrow> count_list (map ClientWrite pks) e = 0"
  by (rule count_list_map_other) auto

lemma transfer_events_counts:
  "count_list (transfer_events s addr old conn) (TrackerClear k) = 1"
  "count_list (transfer_events s addr old conn) (AnimationPlay a gd)
     = (if a = animation s \<and> gd = conn_GameData conn then 1 else 0)"
  "count_list (transfer_events s addr old conn) (AnimationClear a gd)
     = (if a = animation s \<and> gd = conn_GameData conn then 1 else 0)"
  "count_list (transfer_events s addr old conn) (ServerClose c) = (if c = old then 1 else 0)"
  by (cases k; simp add: transfer_events_def Let_def count_flood_events count_deferred)+

lemma Transfer_success_only:
  assumes "Transfer dialed addr s = (Returned None, s')"
  shows "\<exists>conn old. dialed = Inr conn \<and> serverConn s = Some old
     \<and> \<not> transferring s \<and> serverMu s = MuFree"
proof -
  have nt: "\<not> transferring s" using assms by (auto simp: Transfer_rejected)
  have free: "serverMu s = MuFree"
  proof (rule ccontr)
    assume "serverMu s \<noteq> MuFree"
    with nt have "Transfer dialed addr s = (Blocked, s\<lparr>transferring := True\<rparr>)"
      by (rule Transfer_waits)
    with assms show False by simp
  qed
  obtain conn where d: "dialed = Inr conn"
    using assms nt free by (cases dialed) (auto simp: Transfer_dial_failed)
  have "serverConn s \<noteq> None"
    using assms nt free d Transfer_nil_backend(1) [of s conn addr] by auto
  then show ?thesis using nt free d by auto
qed

subsection \<open>The square of the flood\<close>

lemma sint_small_offset:
  fixes i :: int
  assumes "- 4 \<le> i" "i \<le> 4"
  shows "sint (word_of_int i :: int32) = i"
  using assms by (simp add: sint_sbintrunc' signed_take_bit_int_eq_self)

lemma in_offsets:
  "(i, j) \<in> set (List.product chunk_offsets chunk_offsets) \<longleftrightarrow> - 4 \<le> i \<and> i \<le> 4 \<and> - 4 \<le> j \<and> j \<le> 4"
  by (simp only: chunk_offsets_def set_product set_upto mem_Sigma_iff atLeastAtMost_iff) blast

lemma distinct_chunk_square: "distinct (chunk_square chunkX chunkZ)"
proof -
  have "inj_on (\<lambda>(i, j). (chunkX + word_of_int i, chunkZ + word_of_int j))
          (set (List.product chunk_offsets chunk_offsets))"
  proof (rule inj_onI)
    fix p q :: "int \<times> int"
    assume p: "p \<in> set (List.product chunk_offsets chunk_offsets)"
      and q: "q \<in> set (List.product chunk_offsets chunk_offsets)"
      and e: "(case p of (i, j) \<Rightarrow> (chunkX + word_of_int i, chunkZ + word_of_int j))
            = (case q of (i, j) \<Rightarrow> (chunkX + word_of_int i, chunkZ + word_of_int j))"
    obtain i j where pp: "p = (i, j)" by (cases p)
    obtain i' j' where qq: "q = (i', j')" by (cases q)
    from p q pp qq have b: "- 4 \<le> i" "i \<le> 4" "- 4 \<le> j" "j \<le> 4"
      "- 4 \<le> i'" "i' \<le> 4" "- 4 \<le> j'" "j' \<le> 4"
      by (simp_all only: in_offsets)
    from e pp qq have "(word_of_int i :: int32) = word_of_int i'"
      "(word_of_int j :: int32) = word_of_int j'"
      by simp_all
    then have "sint (word_of_int i :: int32) = sint (word_of_int i' :: int32)"
      "sint (word_of_int j :: int32) = sint (word_of_int j' :: int32)"
      by simp_all
    then have "i = i'" "j = j'" using b by (simp_all add: sint_small_offset)
    then show "p = q" using pp qq by simp
  qed
  moreover have "distinct (List.product chunk_offsets chunk_offsets)"
    by (simp add: distinct_product distinct_chunk_offsets)
  ultimately show ?thesis
    unfolding chunk_square_def distinct_map by simp
qed

lemma sint_near:
  fixes c :: int32
  assumes "- (2 ^ 27) \<le> sint c" "sint c < 2 ^ 27" "- 4 \<le> i" "i \<le> 4"
  shows "sint (c + word_of_int i) = sint c + i"
  using assms by (intro sint_add_small) simp_all

lemma word_by_offset:
  fixes x c :: int32
  shows "x = c + word_of_int (sint x - sint c)"
proof -
  have "c + word_of_int (sint x - sint c) = word_of_int (sint c) + word_of_int (sint x - sint c)"
    by simp
  also have "\<dots> = word_of_int (sint c + (sint x - sint c))"
    by (simp only: wi_hom_add)
  also have "\<dots> = x" by simp
  finally show ?thesis by simp
qed

lemma set_chunk_square:
  fixes wx wz :: int32
  defines "chunkX \<equiv> signed_drop_bit 4 wx" and "chunkZ \<equiv> signed_drop_bit 4 wz"
  shows "set (chunk_square chunkX chunkZ) =
     {(x, z). \<bar>sint x - sint chunkX\<bar> \<le> 4 \<and> \<bar>sint z - sint chunkZ\<bar> \<le> 4}"
proof -
  have bx: "- (2 ^ 27) \<le> sint chunkX" "sint chunkX < 2 ^ 27"
    and bz: "- (2 ^ 27) \<le> sint chunkZ" "sint chunkZ < 2 ^ 27"
    unfolding chunkX_def chunkZ_def by (rule sint_chunk_bounds)+
  show ?thesis
  proof (rule set_eqI)
    fix p :: "int32 \<times> int32"
    obtain x z where p: "p = (x, z)" by (cases p)
    show "p \<in> set (chunk_square chunkX chunkZ) \<longleftrightarrow>
       p \<in> {(x, z). \<bar>sint x - sint chunkX\<bar> \<le> 4 \<and> \<bar>sint z - sint chunkZ\<bar> \<le> 4}"
    proof
      assume "p \<in> set (chunk_square chunkX chunkZ)"
      then obtain i j where m: "(i, j) \<in> set (List.product chunk_offsets chunk_offsets)"
        and x: "x = chunkX + word_of_int i" and z: "z = chunkZ + word_of_int j"
        unfolding p chunk_square_def set_map by auto
      from m have ij: "- 4 \<le> i" "i \<le> 4" "- 4 \<le> j" "j \<le> 4"
        by (simp_all only: in_offsets)
      have "sint x = sint chunkX + i" "sint z = sint chunkZ + j"
        using sint_near [OF bx ij(1,2)] sint_near [OF bz ij(3,4)] x z by simp_all
      then show "p \<in> {(x, z). \<bar>sint x - sint chunkX\<bar> \<le> 4 \<and> \<bar>sint z - sint chunkZ\<bar> \<le> 4}"
        using ij p by (simp add: abs_le_iff)
    next
      assume "p \<in> {(x, z). \<bar>sint x - sint chunkX\<bar> \<le> 4 \<and> \<bar>sint z - sint chunkZ\<bar> \<le> 4}"
      then have d: "- 4 \<le> sint x - sint chunkX" "sint x - sint chunkX \<le> 4"
        "- 4 \<le> sint z - sint chunkZ" "sint z - sint chunkZ \<le> 4"
        using p by auto
      have "(x, z) = (\<lambda>(i, j). (chunkX + word_of_int i, chunkZ + word_of_int j))
          (sint x - sint chunkX, sint z - sint chunkZ)"
        using word_by_offset [of x chunkX] word_by_offset [of z chunkZ] by simp
      moreover have "(sint x - sint chunkX, sint z - sint chunkZ)
          \<in> set (List.product chunk_offsets chunk_offsets)"
        using d by (simp only: in_offsets)
      ultimately show "p \<in> set (chunk_square chunkX chunkZ)"
        unfolding chunk_square_def p set_map by (rule image_eqI)
    qed
  qed
qed

lemma sint_int32_of_float32:
  assumes "fits_int32 r"
  shows "sint (int32_of_float32 (Finite r)) = (if 0 \<le> r then \<lfloor>r\<rfloor> else - \<lfloor>- r\<rfloor>)"
proof -
  define k where "k = (if 0 \<le> r then \<lfloor>r\<rfloor> else - \<lfloor>- r\<rfloor>)"
  have lo: "- (2 ^ 31) \<le> k"
  proof (cases "0 \<le> r")
    case True
    then have "0 \<le> \<lfloor>r\<rfloor>" by simp
    then show ?thesis using True by (simp add: k_def)
  next
    case False
    have "- r \<le> 2 ^ 31" using assms by (simp add: fits_int32_def)
    then have "\<lfloor>- r\<rfloor> \<le> 2 ^ 31" by (simp add: floor_le_iff)
    then show ?thesis using False by (simp add: k_def)
  qed
  have hi: "k < 2 ^ 31"
  proof (cases "0 \<le> r")
    case True
    have "r < 2 ^ 31" using assms by (simp add: fits_int32_def)
    then have "\<lfloor>r\<rfloor> < 2 ^ 31" by (simp add: floor_less_iff)
    then show ?thesis using True by (simp add: k_def)
  next
    case False
    then have "0 \<le> \<lfloor>- r\<rfloor>" by simp
    moreover have "k = - \<lfloor>- r\<rfloor>" using False by (simp add: k_def)
    ultimately have "k \<le> 0" by linarith
    then show ?thesis by simp
  qed
  have "int32_of_float32 (Finite r) = word_of_int k"
    using lo hi by (simp add: int32_of_float32_def k_def [symmetric])
  then show ?thesis
    using lo hi by (simp add: sint_sbintrunc' signed_take_bit_int_eq_self k_def [symmetric])
qed

lemma next_int_div16_same:
  fixes n :: int
  assumes "(n + 1) mod 16 \<noteq> 0"
  shows "(n + 1) div 16 = n div 16"
proof -
  define q where "q = n div 16"
  define m where "m = n mod 16"
  have n: "n = 16 * q + m" and m: "0 \<le> m" "m < 16"
    by (simp_all add: q_def m_def)
  have "m \<noteq> 15"
  proof
    assume "m = 15"
    then have "n + 1 = 16 * (q + 1)" using n by simp
    then have "(n + 1) mod 16 = 0" by simp
    with assms show False by simp
  qed
  then have "n + 1 = 16 * q + (m + 1)" "0 \<le> m + 1" "m + 1 < 16"
    using n m by simp_all
  then have "(n + 1) div 16 = q" by (rule int_div_pos_eq)
  then show ?thesis by (simp add: q_def)
qed

lemma next_int_div16_next:
  fixes n :: int
  shows "(n + 1) mod 16 = 0 \<Longrightarrow> (n + 1) div 16 = n div 16 + 1"
  by auto

lemma trunc_negative:
  fixes r :: real
  shows "- \<lfloor>- r\<rfloor> = \<lceil>r\<rceil>"
  by (simp add: ceiling_def)

lemma ceiling_of_whole:
  fixes r :: real
  shows "of_int \<lfloor>r\<rfloor> = r \<Longrightarrow> \<lceil>r\<rceil> = \<lfloor>r\<rfloor>"
  by (metis ceiling_altdef)

lemma ceiling_of_fraction:
  fixes r :: real
  shows "of_int \<lfloor>r\<rfloor> \<noteq> r \<Longrightarrow> \<lceil>r\<rceil> = \<lfloor>r\<rfloor> + 1"
  by (metis ceiling_altdef)

lemma trunc_div16:
  fixes r :: real
  assumes "\<not> just_below_boundary r"
  shows "(if 0 \<le> r then \<lfloor>r\<rfloor> else - \<lfloor>- r\<rfloor>) div 16 = chunk_containing r"
proof (cases "0 \<le> r")
  case True
  then show ?thesis
    using floor_divide_real_eq_div [of 16 r] by (simp add: chunk_containing_def)
next
  case False
  then have neg: "r < 0" by simp
  have c: "chunk_containing r = \<lfloor>r\<rfloor> div 16"
    using floor_divide_real_eq_div [of 16 r] by (simp add: chunk_containing_def)
  show ?thesis
  proof (cases "of_int \<lfloor>r\<rfloor> = r")
    case True
    then have "\<lceil>r\<rceil> = \<lfloor>r\<rfloor>" by (rule ceiling_of_whole)
    then show ?thesis using False c by (simp add: trunc_negative)
  next
    case frac: False
    then have ce: "\<lceil>r\<rceil> = \<lfloor>r\<rfloor> + 1" by (rule ceiling_of_fraction)
    have "(\<lfloor>r\<rfloor> + 1) mod 16 \<noteq> 0"
      using assms neg frac ce by (simp add: just_below_boundary_def)
    then have "(\<lfloor>r\<rfloor> + 1) div 16 = \<lfloor>r\<rfloor> div 16" by (rule next_int_div16_same)
    then show ?thesis using False c ce by (simp add: trunc_negative)
  qed
qed

lemma trunc_div16_just_below:
  fixes r :: real
  assumes "just_below_boundary r"
  shows "(if 0 \<le> r then \<lfloor>r\<rfloor> else - \<lfloor>- r\<rfloor>) div 16 = chunk_containing r + 1"
proof -
  from assms have neg: "r < 0" and frac: "of_int \<lfloor>r\<rfloor> \<noteq> r" and m: "\<lceil>r\<rceil> mod 16 = 0"
    by (simp_all add: just_below_boundary_def)
  have c: "chunk_containing r = \<lfloor>r\<rfloor> div 16"
    using floor_divide_real_eq_div [of 16 r] by (simp add: chunk_containing_def)
  have ce: "\<lceil>r\<rceil> = \<lfloor>r\<rfloor> + 1" using frac by (rule ceiling_of_fraction)
  have "(\<lfloor>r\<rfloor> + 1) div 16 = \<lfloor>r\<rfloor> div 16 + 1"
    using m ce by (intro next_int_div16_next) simp
  then show ?thesis using neg c ce by (simp add: trunc_negative)
qed

lemma chunk_of_fitting:
  assumes "fits_int32 r"
  shows "\<not> just_below_boundary r \<Longrightarrow>
      sint (signed_drop_bit 4 (int32_of_float32 (Finite r))) = chunk_containing r"
    and "just_below_boundary r \<Longrightarrow>
      sint (signed_drop_bit 4 (int32_of_float32 (Finite r))) = chunk_containing r + 1"
  using sint_int32_of_float32 [OF assms] trunc_div16 [of r] trunc_div16_just_below [of r]
  by (simp_all add: sint_signed_drop_bit_eq drop_bit_eq_div)

text \<open>
  Where the centre of the flood is not the chunk of the position. A negative coordinate with
  a fraction is rounded towards zero before the shift: at \<open>X = -1/2\<close> the code computes
  chunk 0, the position lies in chunk -1. A coordinate that does not fit \<open>int32\<close> is
  converted to the smallest \<open>int32\<close>: at \<open>X = 3000000000\<close> the code computes chunk
  -134217728, the position lies in chunk 187500000.
\<close>

lemma chunk_of_negative_fraction:
  "signed_drop_bit 4 (int32_of_float32 (Finite (- 1 / 2))) = 0
   \<and> chunk_containing (- 1 / 2) = - 1"
  by (simp add: int32_of_float32_def chunk_containing_def)

lemma chunk_of_unfitting:
  "signed_drop_bit 4 (int32_of_float32 (Finite 3000000000)) = - 134217728
   \<and> chunk_containing 3000000000 = 187500000"
  by (simp add: int32_of_float32_def chunk_containing_def)

lemma transfer_events_flood:
  "transfer_events s addr old conn =
     [ClientWrite (SetActorData (EntityRuntimeID (client_GameData (clientConn s)))
        [EntityDataFlagNoAI, EntityDataFlagBreathing, EntityDataFlagHasGravity]),
      Dial addr, ServerGameData conn, AnimationPlay (animation s) (conn_GameData conn)]
     @ flood_events (conn_GameData conn)
     @ TrackerClear Effects # drop 86 (transfer_events s addr old conn)"
  by (simp add: transfer_events_def Let_def length_flood_events)

section \<open>The claims\<close>

text \<open>
  C1. If the dial inside \<open>Transfer(addr)\<close> fails, \<open>Transfer\<close> returns that error; the
  session's backend connection and backend address are as before the call (the session
  differs from the one before the call in its trace only); none of the five tracker-clear
  operations is invoked; and the metadata packet that suppresses AI, the only packet sent
  before the dial, is followed by the restoring metadata packet (breathing and gravity,
  without the no-AI flag) before the call returns. The call is one that reaches the dial:
  the flag is clear and the lock is free when it starts.
\<close>

theorem Transfer_dial_failure_rolls_back:
  assumes "\<not> transferring s" and "serverMu s = MuFree"
  shows "Transfer (Inl err) addr s =
      (Returned (Some err),
       s\<lparr>trace := trace s @
        [ClientWrite (SetActorData (EntityRuntimeID (client_GameData (clientConn s)))
           [EntityDataFlagNoAI, EntityDataFlagBreathing, EntityDataFlagHasGravity]),
         Dial addr,
         ClientWrite (SetActorData (EntityRuntimeID (client_GameData (clientConn s)))
           [EntityDataFlagBreathing, EntityDataFlagHasGravity]),
         LogError (''Failed to dial server: '' @ err)]\<rparr>)
    \<and> serverConn (snd (Transfer (Inl err) addr s)) = serverConn s
    \<and> serverAddr (snd (Transfer (Inl err) addr s)) = serverAddr s
    \<and> (\<forall>k. TrackerClear k \<notin> set (events_since s (snd (Transfer (Inl err) addr s))))"
  by (simp add: Transfer_dial_failed [OF assms])

theorem Transfer_dial_failure_rolls_back_witness:
  "\<not> transferring session_A \<and> serverMu session_A = MuFree
    \<and> Transfer (Inl ''connection refused'') ''B'' session_A =
        (Returned (Some ''connection refused''),
         session_A\<lparr>trace :=
           [ClientWrite (SetActorData 7
              [EntityDataFlagNoAI, EntityDataFlagBreathing, EntityDataFlagHasGravity]),
            Dial ''B'',
            ClientWrite (SetActorData 7 [EntityDataFlagBreathing, EntityDataFlagHasGravity]),
            LogError ''Failed to dial server: connection refused'']\<rparr>)
    \<and> serverAddr (snd (Transfer (Inl ''connection refused'') ''B'' session_A)) = ''A''
    \<and> serverConn (snd (Transfer (Inl ''connection refused'') ''B'' session_A)) = Some conn_A"
proof -
  have h: "\<not> transferring session_A" "serverMu session_A = MuFree"
    by (simp_all add: session_A_def)
  have t: "trace session_A = []" "EntityRuntimeID (client_GameData (clientConn session_A)) = 7"
    "serverAddr session_A = ''A''" "serverConn session_A = Some conn_A"
    by (simp_all add: session_A_def player_def overworld_data_def)
  show ?thesis
    using h Transfer_dial_failure_rolls_back [OF h, of "''connection refused''" "''B''"]
    by (simp add: t)
qed

text \<open>
  C2. A call of \<open>Transfer\<close> that finds the flag set returns the error "already
  transferring" and leaves the session as it is, trace included: no packet, no dial, no
  change of the backend connection or address. With several goroutines calling
  \<open>Transfer\<close> under any schedule, a pending call that finds the flag set finishes with
  that error and an unchanged session, at most one call is past the flag check at any
  time, and the flag is set exactly when one is.
\<close>

theorem concurrent_Transfer_is_rejected:
  "(transferring s \<longrightarrow>
      Transfer dialed addr s = (Returned (Some ''already transferring''), s))
   \<and> (transferring s \<and> i < length calls \<and> calls ! i = Pending dialed addr \<longrightarrow>
        step_call i (s, calls)
          = (s, calls[i := Finished (Returned (Some ''already transferring''))]))
   \<and> (\<not> transferring s0 \<and> filter past_check calls0 = [] \<longrightarrow>
        (case run_schedule schedule (s0, calls0) of
           (s', calls') \<Rightarrow>
             length (filter past_check calls') \<le> 1
             \<and> (transferring s' \<longleftrightarrow> length (filter past_check calls') = 1)))"
proof (intro conjI impI)
  assume "transferring s"
  then show "Transfer dialed addr s = (Returned (Some ''already transferring''), s)"
    by (rule Transfer_rejected)
next
  assume "transferring s \<and> i < length calls \<and> calls ! i = Pending dialed addr"
  then show "step_call i (s, calls)
          = (s, calls[i := Finished (Returned (Some ''already transferring''))])"
    by (simp add: step_call_def transferring_CompareAndSwap_def)
next
  assume "\<not> transferring s0 \<and> filter past_check calls0 = []"
  then have "calls_inv (s0, calls0)" by (simp add: calls_inv_def)
  then have "calls_inv (run_schedule schedule (s0, calls0))" by (rule run_schedule_inv)
  then show "case run_schedule schedule (s0, calls0) of
           (s', calls') \<Rightarrow>
             length (filter past_check calls') \<le> 1
             \<and> (transferring s' \<longleftrightarrow> length (filter past_check calls') = 1)"
    by (auto simp: calls_inv_def split: prod.splits if_splits)
qed

theorem concurrent_Transfer_is_rejected_witness:
  "\<not> transferring session_A
   \<and> filter past_check [Pending (Inl ''refused'') ''B'', Pending (Inr conn_B) ''C''] = []
   \<and> run_schedule [0, 1] (session_A, [Pending (Inl ''refused'') ''B'', Pending (Inr conn_B) ''C''])
       = (session_A\<lparr>transferring := True\<rparr>,
          [PastCheck (Inl ''refused'') ''B'', Finished (Returned (Some ''already transferring''))])
   \<and> snd (run_schedule [0, 1, 0]
         (session_A, [Pending (Inl ''refused'') ''B'', Pending (Inr conn_B) ''C'']))
       = [Finished (Returned (Some ''refused'')), Finished (Returned (Some ''already transferring''))]
   \<and> \<not> transferring (fst (run_schedule [0, 1, 0]
         (session_A, [Pending (Inl ''refused'') ''B'', Pending (Inr conn_B) ''C''])))
   \<and> transferring (session_A\<lparr>transferring := True\<rparr>)
   \<and> (1 :: nat) < length [PastCheck (Inl ''refused'') ''B'', Pending (Inr conn_B) ''C'']
   \<and> [PastCheck (Inl ''refused'') ''B'', Pending (Inr conn_B) ''C''] ! 1 = Pending (Inr conn_B) ''C''
   \<and> Transfer (Inr conn_B) ''C'' (session_A\<lparr>transferring := True\<rparr>)
       = (Returned (Some ''already transferring''), session_A\<lparr>transferring := True\<rparr>)
   \<and> step_call 1 (session_A\<lparr>transferring := True\<rparr>,
         [PastCheck (Inl ''refused'') ''B'', Pending (Inr conn_B) ''C''])
       = (session_A\<lparr>transferring := True\<rparr>,
          [PastCheck (Inl ''refused'') ''B'', Finished (Returned (Some ''already transferring''))])"
proof -
  let ?calls = "[Pending (Inl ''refused'') ''B'', Pending (Inr conn_B) ''C'']"
  have h: "\<not> transferring session_A" "serverMu session_A = MuFree"
    by (simp_all add: session_A_def)
  have r2: "run_schedule [0, 1] (session_A, ?calls)
       = (session_A\<lparr>transferring := True\<rparr>,
          [PastCheck (Inl ''refused'') ''B'', Finished (Returned (Some ''already transferring''))])"
    using h by (simp add: run_schedule_def step_call_def transferring_CompareAndSwap_def)
  obtain s1 where ac: "Transfer_after_check (Inl ''refused'') ''B'' (session_A\<lparr>transferring := True\<rparr>)
      = (Returned (Some ''refused''), s1)"
    using Transfer_dial_failed [OF h, of "''refused''" "''B''"] h
    by (simp add: Transfer_split)
  have "run_schedule [0, 1, 0] (session_A, ?calls)
      = step_call 0 (run_schedule [0, 1] (session_A, ?calls))"
    by (simp add: run_schedule_def)
  also have "\<dots> = step_call 0 (session_A\<lparr>transferring := True\<rparr>,
          [PastCheck (Inl ''refused'') ''B'', Finished (Returned (Some ''already transferring''))])"
    by (simp only: r2)
  also have "\<dots> = (s1, [Finished (Returned (Some ''refused'')),
              Finished (Returned (Some ''already transferring''))])"
    by (simp add: step_call_def ac)
  finally have r3: "run_schedule [0, 1, 0] (session_A, ?calls)
      = (s1, [Finished (Returned (Some ''refused'')),
              Finished (Returned (Some ''already transferring''))])" .
  note w = concurrent_Transfer_is_rejected
    [where s = "session_A\<lparr>transferring := True\<rparr>" and dialed = "Inr conn_B" and addr = "''C''"
       and i = 1 and calls = "[PastCheck (Inl ''refused'') ''B'', Pending (Inr conn_B) ''C'']"
       and ?s0.0 = session_A and ?calls0.0 = ?calls and schedule = "[0, 1, 0]"]
  show ?thesis
    using h r2 r3 w by simp
qed

text \<open>
  C3. Whenever \<open>Transfer\<close> returns nil, the dial had returned a connection, the session
  had a backend connection, and the events of the call are, in this order, those of section
  4.2: metadata suppression, dial, the game data of the new connection, animation
  \<open>Play\<close> with it, the chunk flood, the five tracker clears, the position reset, the two
  weather stops, difficulty, game mode, game rules, animation \<open>Clear\<close>, the close of the
  previous backend connection, the stores of the new address and connection, the flush of
  the packets the new backend deferred, in arrival order, and the log entry. Each tracker
  clear, \<open>Play\<close>, \<open>Clear\<close> and the close of the old connection occur exactly once.
\<close>

theorem Transfer_success_order:
  assumes "Transfer dialed addr s = (Returned None, s')"
  shows "\<exists>conn old. dialed = Inr conn \<and> serverConn s = Some old
     \<and> s' = s\<lparr>serverAddr := addr, serverConn := Some conn,
              trace := trace s @ transfer_events s addr old conn\<rparr>
     \<and> (\<forall>k. count_list (transfer_events s addr old conn) (TrackerClear k) = 1)
     \<and> count_list (transfer_events s addr old conn)
          (AnimationPlay (animation s) (conn_GameData conn)) = 1
     \<and> count_list (transfer_events s addr old conn)
          (AnimationClear (animation s) (conn_GameData conn)) = 1
     \<and> count_list (transfer_events s addr old conn) (ServerClose old) = 1"
proof -
  from Transfer_success_only [OF assms] obtain conn old where
    d: "dialed = Inr conn" and o: "serverConn s = Some old"
    and nt: "\<not> transferring s" and free: "serverMu s = MuFree"
    by blast
  have "s' = s\<lparr>serverAddr := addr, serverConn := Some conn,
              trace := trace s @ transfer_events s addr old conn\<rparr>"
    using assms d Transfer_success [OF nt free o, of conn addr] by simp
  then show ?thesis using d o by (simp add: transfer_events_counts)
qed

theorem Transfer_success_order_witness:
  "Transfer (Inr conn_B) ''B'' session_A =
     (Returned None,
      session_A\<lparr>serverAddr := ''B'', serverConn := Some conn_B,
        trace := transfer_events session_A ''B'' conn_A conn_B\<rparr>)
   \<and> length (transfer_events session_A ''B'' conn_A conn_B) = 104
   \<and> take 4 (transfer_events session_A ''B'' conn_A conn_B) =
       [ClientWrite (SetActorData 7
          [EntityDataFlagNoAI, EntityDataFlagBreathing, EntityDataFlagHasGravity]),
        Dial ''B'', ServerGameData conn_B, AnimationPlay DimensionAnimation nether_data]
   \<and> drop 85 (transfer_events session_A ''B'' conn_A conn_B) =
       [TrackerClear Effects, TrackerClear Entities, TrackerClear BossBars,
        TrackerClear Players, TrackerClear Scoreboards,
        ClientWrite (MovePlayer 9 (Finite 0, Finite 70, Finite 0) (Finite 0) (Finite 0)
          MoveModeReset),
        ClientWrite (LevelEvent LevelEventStopRaining 10000),
        ClientWrite (LevelEvent LevelEventStopThunderstorm 0),
        ClientWrite (SetDifficulty 1),
        ClientWrite (SetPlayerGameType 1),
        ClientWrite (GameRulesChanged []),
        AnimationClear DimensionAnimation nether_data,
        ServerClose conn_A,
        SetServerAddr ''B'', SetServerConn (Some conn_B),
        ServerReadDeferred conn_B,
        ClientWrite (BackendPacket 20), ClientWrite (BackendPacket 21),
        LogDebug ''Transferred session for Steve to B'']"
proof -
  have h: "\<not> transferring session_A" "serverMu session_A = MuFree"
    "serverConn session_A = Some conn_A" "trace session_A = []"
    by (simp_all add: session_A_def)
  have t: "Transfer (Inr conn_B) ''B'' session_A =
     (Returned None,
      session_A\<lparr>serverAddr := ''B'', serverConn := Some conn_B,
        trace := transfer_events session_A ''B'' conn_A conn_B\<rparr>)"
    using Transfer_success [OF h(1,2,3), of conn_B "''B''"] h(4) by simp
  have e: "transfer_events session_A ''B'' conn_A conn_B =
       [ClientWrite (SetActorData 7
          [EntityDataFlagNoAI, EntityDataFlagBreathing, EntityDataFlagHasGravity]),
        Dial ''B'', ServerGameData conn_B, AnimationPlay DimensionAnimation nether_data]
       @ flood_events nether_data
       @ [TrackerClear Effects, TrackerClear Entities, TrackerClear BossBars,
        TrackerClear Players, TrackerClear Scoreboards,
        ClientWrite (MovePlayer 9 (Finite 0, Finite 70, Finite 0) (Finite 0) (Finite 0)
          MoveModeReset),
        ClientWrite (LevelEvent LevelEventStopRaining 10000),
        ClientWrite (LevelEvent LevelEventStopThunderstorm 0),
        ClientWrite (SetDifficulty 1),
        ClientWrite (SetPlayerGameType 1),
        ClientWrite (GameRulesChanged []),
        AnimationClear DimensionAnimation nether_data,
        ServerClose conn_A,
        SetServerAddr ''B'', SetServerConn (Some conn_B),
        ServerReadDeferred conn_B,
        ClientWrite (BackendPacket 20), ClientWrite (BackendPacket 21),
        LogDebug ''Transferred session for Steve to B'']"
    by (simp add: transfer_events_def session_A_def player_def overworld_data_def conn_B_def
        nether_data_def)
       (simp add: Let_def)
  from Transfer_success_order [OF t] have
    "count_list (transfer_events session_A ''B'' conn_A conn_B) (TrackerClear Players) = 1"
    using h(3) by auto
  then show ?thesis using t by (simp add: e length_flood_events)
qed

text \<open>
  C4, as amended. Let the new backend report a player position whose coordinates \<open>X\<close> and
  \<open>Z\<close> are finite, fit \<open>int32\<close>, and do not lie just below a chunk boundary (negative,
  with a fraction, less than one block below a multiple of 16). Then the chunk flood (lines
  110 to 123) ends and sends one chunk packet, with the empty payload built for the
  dimension of the new backend, for each of the 81 distinct chunk positions at most 4 away,
  in each coordinate, from the chunk that contains the position; the radius 4 is a constant
  of the code. Every packet of the flood is tagged with the Nether, which differs from the
  dimension of the new backend exactly when that dimension is not the Nether. In a call of
  \<open>Transfer\<close> that returns nil the flood follows animation \<open>Play\<close> and precedes the first
  tracker clear.
\<close>

theorem chunk_flood_covers_square:
  assumes "PlayerPosition gd = (Finite X, Y, Finite Z)"
    and "fits_int32 X" and "fits_int32 Z"
    and "\<not> just_below_boundary X" and "\<not> just_below_boundary Z"
  shows "chunk_flood gd t =
       Some (t\<lparr>trace := trace t @
           map (\<lambda>p. ClientWrite (LevelChunk DimensionNether p 1 (emptyChunk (Dimension gd))))
             (chunk_square (word_of_int (chunk_containing X)) (word_of_int (chunk_containing Z)))\<rparr>)
   \<and> length (chunk_square (word_of_int (chunk_containing X)) (word_of_int (chunk_containing Z)))
       = 81
   \<and> distinct (chunk_square (word_of_int (chunk_containing X)) (word_of_int (chunk_containing Z)))
   \<and> set (chunk_square (word_of_int (chunk_containing X)) (word_of_int (chunk_containing Z))) =
       {(x, z). \<bar>sint x - chunk_containing X\<bar> \<le> 4 \<and> \<bar>sint z - chunk_containing Z\<bar> \<le> 4}
   \<and> (DimensionNether \<noteq> Dimension gd \<longleftrightarrow> Dimension gd \<noteq> 1)
   \<and> (Transfer (Inr conn) addr s = (Returned None, s') \<and> gd = conn_GameData conn \<longrightarrow>
        (\<exists>rest. events_since s s' =
           [ClientWrite (SetActorData (EntityRuntimeID (client_GameData (clientConn s)))
              [EntityDataFlagNoAI, EntityDataFlagBreathing, EntityDataFlagHasGravity]),
            Dial addr, ServerGameData conn, AnimationPlay (animation s) gd]
           @ map (\<lambda>p. ClientWrite (LevelChunk DimensionNether p 1 (emptyChunk (Dimension gd))))
             (chunk_square (word_of_int (chunk_containing X)) (word_of_int (chunk_containing Z)))
           @ TrackerClear Effects # rest))"
proof -
  have cx: "sint (chunkX_of gd) = chunk_containing X"
    using assms(1) chunk_of_fitting(1) [OF assms(2,4)] by (simp add: chunkX_of_def vec_X_def)
  have cz: "sint (chunkZ_of gd) = chunk_containing Z"
    using assms(1) chunk_of_fitting(1) [OF assms(3,5)] by (simp add: chunkZ_of_def vec_Z_def)
  have "word_of_int (sint (chunkX_of gd)) = chunkX_of gd" by simp
  then have wx: "chunkX_of gd = word_of_int (chunk_containing X)" by (simp only: cx)
  have "word_of_int (sint (chunkZ_of gd)) = chunkZ_of gd" by simp
  then have wz: "chunkZ_of gd = word_of_int (chunk_containing Z)" by (simp only: cz)
  have fe: "flood_events gd =
           map (\<lambda>p. ClientWrite (LevelChunk DimensionNether p 1 (emptyChunk (Dimension gd))))
             (chunk_square (word_of_int (chunk_containing X)) (word_of_int (chunk_containing Z)))"
    by (simp only: flood_events_def wx wz)
  have s0: "set (chunk_square (chunkX_of gd) (chunkZ_of gd)) =
       {(x, z). \<bar>sint x - sint (chunkX_of gd)\<bar> \<le> 4 \<and> \<bar>sint z - sint (chunkZ_of gd)\<bar> \<le> 4}"
    unfolding chunkX_of_def chunkZ_of_def by (rule set_chunk_square)
  note s1 = s0 [unfolded cx cz]
  show ?thesis
  proof (intro conjI impI)
    show "chunk_flood gd t =
       Some (t\<lparr>trace := trace t @
           map (\<lambda>p. ClientWrite (LevelChunk DimensionNether p 1 (emptyChunk (Dimension gd))))
             (chunk_square (word_of_int (chunk_containing X)) (word_of_int (chunk_containing Z)))\<rparr>)"
      using chunk_flood_eq [of gd t] by (simp only: fe)
    show "length (chunk_square (word_of_int (chunk_containing X))
        (word_of_int (chunk_containing Z))) = 81"
      by (rule length_chunk_square)
    show "distinct (chunk_square (word_of_int (chunk_containing X))
        (word_of_int (chunk_containing Z)))"
      by (rule distinct_chunk_square)
    show "set (chunk_square (word_of_int (chunk_containing X))
        (word_of_int (chunk_containing Z))) =
       {(x, z). \<bar>sint x - chunk_containing X\<bar> \<le> 4 \<and> \<bar>sint z - chunk_containing Z\<bar> \<le> 4}"
      using s1 by (simp only: wx wz)
    show "DimensionNether \<noteq> Dimension gd \<longleftrightarrow> Dimension gd \<noteq> 1"
      by (auto simp: DimensionNether_def)
  next
    assume a: "Transfer (Inr conn) addr s = (Returned None, s') \<and> gd = conn_GameData conn"
    then obtain conn' old where "Inr conn = (Inr conn' :: string + server_conn)"
      and o: "serverConn s = Some old" and nt: "\<not> transferring s" and free: "serverMu s = MuFree"
      using Transfer_success_only [of "Inr conn" addr s s'] by blast
    have "trace s' = trace s @ transfer_events s addr old conn"
      using a Transfer_success [OF nt free o, of conn addr] by auto
    then have "events_since s s' = transfer_events s addr old conn" by simp
    then have "\<exists>rest. events_since s s' =
           [ClientWrite (SetActorData (EntityRuntimeID (client_GameData (clientConn s)))
              [EntityDataFlagNoAI, EntityDataFlagBreathing, EntityDataFlagHasGravity]),
            Dial addr, ServerGameData conn, AnimationPlay (animation s) gd]
           @ flood_events gd @ TrackerClear Effects # rest"
      using a transfer_events_flood [of s addr old conn] by auto
    then show "\<exists>rest. events_since s s' =
           [ClientWrite (SetActorData (EntityRuntimeID (client_GameData (clientConn s)))
              [EntityDataFlagNoAI, EntityDataFlagBreathing, EntityDataFlagHasGravity]),
            Dial addr, ServerGameData conn, AnimationPlay (animation s) gd]
           @ map (\<lambda>p. ClientWrite (LevelChunk DimensionNether p 1 (emptyChunk (Dimension gd))))
             (chunk_square (word_of_int (chunk_containing X)) (word_of_int (chunk_containing Z)))
           @ TrackerClear Effects # rest"
      by (simp only: fe)
  qed
qed

theorem chunk_flood_covers_square_witness:
  "PlayerPosition overworld_data = (Finite 8, Finite 64, Finite (- 20))
   \<and> fits_int32 8 \<and> fits_int32 (- 20)
   \<and> \<not> just_below_boundary 8 \<and> \<not> just_below_boundary (- 20)
   \<and> chunk_containing 8 = 0 \<and> chunk_containing (- 20) = - 2
   \<and> (4, 2) \<in> set (chunk_square 0 (- 2))
   \<and> (5, 2) \<notin> set (chunk_square 0 (- 2))
   \<and> Transfer (Inr conn_A) ''A2'' session_A =
       (Returned None,
        session_A\<lparr>serverAddr := ''A2'', serverConn := Some conn_A,
          trace := transfer_events session_A ''A2'' conn_A conn_A\<rparr>)
   \<and> (\<exists>rest. transfer_events session_A ''A2'' conn_A conn_A =
         [ClientWrite (SetActorData 7
            [EntityDataFlagNoAI, EntityDataFlagBreathing, EntityDataFlagHasGravity]),
          Dial ''A2'', ServerGameData conn_A, AnimationPlay DimensionAnimation overworld_data]
         @ map (\<lambda>p. ClientWrite (LevelChunk DimensionNether p 1 (emptyChunk 0)))
             (chunk_square 0 (- 2))
         @ TrackerClear Effects # rest)"
proof -
  let ?s' = "session_A\<lparr>serverAddr := ''A2'', serverConn := Some conn_A,
          trace := transfer_events session_A ''A2'' conn_A conn_A\<rparr>"
  have p: "PlayerPosition overworld_data = (Finite 8, Finite 64, Finite (- 20))"
    by (simp add: overworld_data_def)
  have f: "fits_int32 8" "fits_int32 (- 20)"
    by (simp_all add: fits_int32_def)
  have b: "\<not> just_below_boundary 8" "\<not> just_below_boundary (- 20)"
    by (simp_all add: just_below_boundary_def)
  have c: "chunk_containing 8 = 0" "chunk_containing (- 20) = - 2"
    by (simp_all add: chunk_containing_def)
  have h: "\<not> transferring session_A" "serverMu session_A = MuFree"
    "serverConn session_A = Some conn_A"
    by (simp_all add: session_A_def)
  have g: "trace session_A = []" "overworld_data = conn_GameData conn_A"
    "EntityRuntimeID (client_GameData (clientConn session_A)) = 7"
    "animation session_A = DimensionAnimation" "Dimension overworld_data = 0"
    by (simp_all add: session_A_def conn_A_def player_def overworld_data_def)
  have t: "Transfer (Inr conn_A) ''A2'' session_A = (Returned None, ?s')"
    using Transfer_success [OF h, of conn_A "''A2''"] g(1) by simp
  note w = chunk_flood_covers_square
    [OF p f b, of session_A conn_A "''A2''" session_A ?s', unfolded c]
  note w4 = w [THEN conjunct2, THEN conjunct2, THEN conjunct2, THEN conjunct1]
  note w6 = w [THEN conjunct2, THEN conjunct2, THEN conjunct2, THEN conjunct2, THEN conjunct2]
  have m1: "(4, 2) \<in> set (chunk_square (word_of_int 0) (word_of_int (- 2) :: int32))"
    unfolding w4 by simp
  have m2: "(5, 2) \<notin> set (chunk_square (word_of_int 0) (word_of_int (- 2) :: int32))"
    unfolding w4 by simp
  have "events_since session_A ?s' = transfer_events session_A ''A2'' conn_A conn_A"
    by (simp add: events_since_def g(1))
  moreover have "\<exists>rest. events_since session_A ?s' =
         [ClientWrite (SetActorData (EntityRuntimeID (client_GameData (clientConn session_A)))
            [EntityDataFlagNoAI, EntityDataFlagBreathing, EntityDataFlagHasGravity]),
          Dial ''A2'', ServerGameData conn_A, AnimationPlay (animation session_A) overworld_data]
         @ map (\<lambda>p. ClientWrite (LevelChunk DimensionNether p 1
                  (emptyChunk (Dimension overworld_data))))
             (chunk_square (word_of_int 0) (word_of_int (- 2)))
         @ TrackerClear Effects # rest"
    using w6 t g(2) by blast
  ultimately have e: "\<exists>rest. transfer_events session_A ''A2'' conn_A conn_A =
         [ClientWrite (SetActorData 7
            [EntityDataFlagNoAI, EntityDataFlagBreathing, EntityDataFlagHasGravity]),
          Dial ''A2'', ServerGameData conn_A, AnimationPlay DimensionAnimation overworld_data]
         @ map (\<lambda>p. ClientWrite (LevelChunk DimensionNether p 1 (emptyChunk 0)))
             (chunk_square (word_of_int 0) (word_of_int (- 2)))
         @ TrackerClear Effects # rest"
    by (simp only: g(3,4,5))
  show ?thesis
    using p f b c m1 m2 t e by (intro conjI) simp_all
qed

text \<open>
  C4 as stated fails when the new backend is in the Nether: the packets of the flood are
  tagged with the Nether, the dimension of the new backend itself.
\<close>

theorem flood_tagged_with_target_dimension:
  "fst (Transfer (Inr conn_B) ''B'' session_A) = Returned None
   \<and> Dimension (conn_GameData conn_B) = 1
   \<and> ClientWrite (LevelChunk 1 (0, 0) 1 (emptyChunk 1))
       \<in> set (trace (snd (Transfer (Inr conn_B) ''B'' session_A)))"
proof -
  have h: "\<not> transferring session_A" "serverMu session_A = MuFree"
    "serverConn session_A = Some conn_A"
    by (simp_all add: session_A_def)
  have c: "chunkX_of nether_data = 0" "chunkZ_of nether_data = 0" "Dimension nether_data = 1"
    by (simp_all add: chunkX_of_def chunkZ_of_def nether_data_def vec_X_def vec_Z_def
        int32_of_float32_def)
  have g: "conn_GameData conn_B = nether_data" "trace session_A = []"
    by (simp_all add: conn_B_def session_A_def)
  have "(0, 0) \<in> set (List.product chunk_offsets chunk_offsets)"
    by (simp only: in_offsets) simp
  then have "(\<lambda>(i, j). (0 + word_of_int i, 0 + word_of_int j)) (0, 0)
      \<in> set (chunk_square 0 (0 :: int32))"
    unfolding chunk_square_def set_map by (rule imageI)
  then have "(0, 0) \<in> set (chunk_square 0 (0 :: int32))" by simp
  then have "ClientWrite (LevelChunk 1 (0, 0) 1 (emptyChunk 1)) \<in> set (flood_events nether_data)"
    by (simp add: flood_events_def c DimensionNether_def image_iff)
  then have "ClientWrite (LevelChunk 1 (0, 0) 1 (emptyChunk 1))
      \<in> set (transfer_events session_A ''B'' conn_A conn_B)"
    by (subst transfer_events_flood) (simp add: g)
  then show ?thesis
    by (simp add: Transfer_success [OF h] g c)
qed

text \<open>
  C5. \<open>Close\<close> is idempotent. On a closed session \<open>Close\<close> changes nothing, and no run
  of calls adds an event of the body of \<open>Close\<close> (so none does after the startup goroutine
  has closed the session); any number
  \<open>n \<ge> 1\<close> of calls of \<open>Close\<close> gives what one call gives; and whatever the calls are
  (\<open>Close\<close>, or \<open>Disconnect\<close> with a message), one or more of them on a session that is
  not yet closed run the body of \<open>Close\<close> exactly once: the events of the body found in
  the trace afterwards are one close of the client connection, one close of the backend
  connection if there is one, one removal from the registry by the client's identity, and
  the log entry.
\<close>

theorem Close_runs_once:
  "(once s \<longrightarrow> Close s = Some s)
   \<and> (once s \<longrightarrow>
        (\<exists>s'. close_calls_run calls s = Some s' \<and> filter is_teardown (events_since s s') = []))
   \<and> (0 < n \<longrightarrow> close_calls_run (replicate n ViaClose) s = Close s)
   \<and> (\<not> once s \<and> calls \<noteq> [] \<longrightarrow>
        (\<exists>s'. close_calls_run calls s = Some s' \<and> once s'
           \<and> take (length (trace s)) (trace s') = trace s
           \<and> filter is_teardown (events_since s s') =
               [ClientClose]
               @ (case serverConn s of None \<Rightarrow> [] | Some c \<Rightarrow> [ServerClose c])
               @ [RegistryRemove (identity_XUID (clientConn s)),
                  LogInfo (''Closed session for '' @ identity_DisplayName (clientConn s))]))"
proof (intro conjI impI)
  assume "once s"
  then show "Close s = Some s" by (simp add: Close_eq)
next
  assume "once s"
  then obtain es where "close_calls_run calls s = Some (s\<lparr>trace := trace s @ es\<rparr>)"
    and "filter is_teardown es = []"
    using close_calls_run_closed [of s calls] by blast
  then show "\<exists>s'. close_calls_run calls s = Some s' \<and> filter is_teardown (events_since s s') = []"
    by simp
next
  assume "0 < n"
  then show "close_calls_run (replicate n ViaClose) s = Close s" by (rule Close_n_times)
next
  assume a: "\<not> once s \<and> calls \<noteq> []"
  then obtain es where
    r: "close_calls_run calls s = Some (s\<lparr>once := True, trace := trace s @ es\<rparr>)"
    and f: "filter is_teardown es = teardown_events s"
    using close_calls_run_open [of s calls] by blast
  show "\<exists>s'. close_calls_run calls s = Some s' \<and> once s'
           \<and> take (length (trace s)) (trace s') = trace s
           \<and> filter is_teardown (events_since s s') =
               [ClientClose]
               @ (case serverConn s of None \<Rightarrow> [] | Some c \<Rightarrow> [ServerClose c])
               @ [RegistryRemove (identity_XUID (clientConn s)),
                  LogInfo (''Closed session for '' @ identity_DisplayName (clientConn s))]"
    using r f by (simp add: teardown_events_def)
qed

theorem Close_runs_once_witness:
  "\<not> once session_A \<and> [ViaDisconnect ''bye'', ViaClose, ViaClose] \<noteq> []
   \<and> close_calls_run [ViaDisconnect ''bye'', ViaClose, ViaClose] session_A =
       Some (session_A\<lparr>once := True, trace :=
         [ClientWrite (Disconnect ''bye''), ClientClose, ServerClose conn_A,
          RegistryRemove ''2535'', LogInfo ''Closed session for Steve'']\<rparr>)
   \<and> filter is_teardown
         [ClientWrite (Disconnect ''bye''), ClientClose, ServerClose conn_A,
          RegistryRemove ''2535'', LogInfo ''Closed session for Steve'']
       = [ClientClose, ServerClose conn_A, RegistryRemove ''2535'',
          LogInfo ''Closed session for Steve'']
   \<and> close_calls_run (replicate 3 ViaClose) session_A = Close session_A
   \<and> once (session_A\<lparr>once := True\<rparr>)
   \<and> Close (session_A\<lparr>once := True\<rparr>) = Some (session_A\<lparr>once := True\<rparr>)"
proof -
  have r: "close_calls_run [ViaDisconnect ''bye'', ViaClose, ViaClose] session_A =
       Some (session_A\<lparr>once := True, trace :=
         [ClientWrite (Disconnect ''bye''), ClientClose, ServerClose conn_A,
          RegistryRemove ''2535'', LogInfo ''Closed session for Steve'']\<rparr>)"
    by (simp add: Disconnect_session_eq Close_eq teardown_events_def session_A_def player_def)
  have o: "\<not> once session_A" by (simp add: session_A_def)
  show ?thesis
    using Close_runs_once [of session_A "[ViaDisconnect ''bye'', ViaClose, ViaClose]" 3]
      Close_runs_once [of "session_A\<lparr>once := True\<rparr>" "[ViaClose]" 1] r o
    by simp
qed

text \<open>
  C6. If the first dial fails, or the dial succeeds and \<open>StartGame\<close> fails, the startup
  goroutine closes the session and stops: the trace of the new session after it holds the
  close of the client connection, no \<open>RegistryAdd\<close>, no start of a packet pump or of the
  latency sampler, and no packet written to the client.
\<close>

theorem startup_failure_aborts:
  "(\<exists>s'. NewSession_go (Inl err) started addr li (fst (NewSession cc addr li)) = Some s'
      \<and> once s'
      \<and> trace s' = [Go (Startup addr li), Dial addr, SetServerAddr addr, SetServerConn None,
           ClientClose, RegistryRemove (identity_XUID cc),
           LogInfo (''Closed session for '' @ identity_DisplayName cc),
           LogError (''Failed to dial server: '' @ err)]
      \<and> (\<forall>x. RegistryAdd x \<notin> set (trace s'))
      \<and> Go HandleIncoming \<notin> set (trace s') \<and> Go HandleOutgoing \<notin> set (trace s')
      \<and> (\<forall>i. Go (HandleLatency i) \<notin> set (trace s'))
      \<and> (\<forall>pk. ClientWrite pk \<notin> set (trace s')))
   \<and> (\<exists>s'. NewSession_go (Inr conn) (Some err) addr li (fst (NewSession cc addr li)) = Some s'
      \<and> once s'
      \<and> trace s' = [Go (Startup addr li), Dial addr, SetServerAddr addr,
           SetServerConn (Some conn), ServerGameData conn, ClientStartGame (conn_GameData conn),
           ClientClose, ServerClose conn, RegistryRemove (identity_XUID cc),
           LogInfo (''Closed session for '' @ identity_DisplayName cc),
           LogError (''Failed to start game timeout: '' @ err)]
      \<and> (\<forall>x. RegistryAdd x \<notin> set (trace s'))
      \<and> Go HandleIncoming \<notin> set (trace s') \<and> Go HandleOutgoing \<notin> set (trace s')
      \<and> (\<forall>i. Go (HandleLatency i) \<notin> set (trace s'))
      \<and> (\<forall>pk. ClientWrite pk \<notin> set (trace s')))"
  by (simp add: NewSession_eq NewSession_go_dial_failed NewSession_go_start_failed)

text \<open>
  C7, as amended. Once the startup goroutine that \<open>NewSession\<close> starts has run (it stores
  the address given to \<open>NewSession\<close> after its dial, whether the dial succeeded or not),
  and after any calls of \<open>Transfer\<close> made one after the other, the backend address of the
  session is the address of the most recent call that returned nil, or the address given to
  \<open>NewSession\<close> when no call did. A call that does not return nil (rejected, dial failed,
  panicked, waiting) leaves the address as it was.
\<close>

theorem serverAddr_is_most_recent_success:
  assumes "run_startup dialed started (fst (NewSession cc addr li)) = Some s"
    and "Transfers calls s = (rs, s')"
  shows "serverAddr s' = most_recent_success addr (zip (map snd calls) rs)
    \<and> (\<forall>d a t. fst (Transfer d a t) \<noteq> Returned None
          \<longrightarrow> serverAddr (snd (Transfer d a t)) = serverAddr t)"
proof -
  have "serverAddr s = addr"
    using NewSession_go_serverAddr [of dialed started addr li "fst (NewSession cc addr li)"]
      assms(1) by (auto simp: run_startup_NewSession)
  then show ?thesis
    using Transfers_serverAddr [OF assms(2)] by (simp add: Transfer_serverAddr)
qed

theorem serverAddr_is_most_recent_success_witness:
  "\<exists>s. run_startup (Inr conn_A) None (fst (NewSession player ''A'' 20)) = Some s
     \<and> fst (Transfers [(Inl ''refused'', ''B''), (Inr conn_B, ''C''), (Inl ''down'', ''D'')] s)
         = [Returned (Some ''refused''), Returned None, Returned (Some ''down'')]
     \<and> serverAddr (snd (Transfers
           [(Inl ''refused'', ''B''), (Inr conn_B, ''C''), (Inl ''down'', ''D'')] s)) = ''C''"
proof -
  let ?calls = "[(Inl ''refused'', ''B''), (Inr conn_B, ''C''), (Inl ''down'', ''D'')]"
  obtain s where s: "run_startup (Inr conn_A) None (fst (NewSession player ''A'' 20)) = Some s"
    and f: "\<not> transferring s" "serverMu s = MuFree" "serverConn s = Some conn_A"
    unfolding run_startup_NewSession
    by (simp add: NewSession_go_started NewSession_eq)
  obtain s1 where t1: "Transfer (Inl ''refused'') ''B'' s = (Returned (Some ''refused''), s1)"
    and f1: "\<not> transferring s1" "serverMu s1 = MuFree" "serverConn s1 = Some conn_A"
    using f by (simp add: Transfer_dial_failed)
  obtain s2 where t2: "Transfer (Inr conn_B) ''C'' s1 = (Returned None, s2)"
    and f2: "\<not> transferring s2" "serverMu s2 = MuFree"
    using f1 by (simp add: Transfer_success)
  obtain s3 where t3: "Transfer (Inl ''down'') ''D'' s2 = (Returned (Some ''down''), s3)"
    using f2 by (simp add: Transfer_dial_failed)
  have r: "Transfers ?calls s =
      ([Returned (Some ''refused''), Returned None, Returned (Some ''down'')], s3)"
    by (simp add: t1 t2 t3)
  from serverAddr_is_most_recent_success [OF s r]
  have "serverAddr s3 = ''C''" by simp
  with s r show ?thesis by auto
qed

text \<open>
  C7 as stated fails before the startup goroutine has stored the address: on the session
  that \<open>NewSession\<close> returns for the address A, a call of \<open>Transfer\<close> whose dial fails
  returns the error and the backend address of the session is empty, not A.
\<close>

theorem serverAddr_empty_before_startup:
  "fst (Transfers [(Inl ''refused'', ''B'')] (fst (NewSession player ''A'' 20)))
      = [Returned (Some ''refused'')]
   \<and> serverAddr (snd (Transfers [(Inl ''refused'', ''B'')] (fst (NewSession player ''A'' 20))))
      = []
   \<and> most_recent_success ''A'' (zip [''B''] [Returned (Some ''refused'')]) = ''A''"
proof -
  have h: "\<not> transferring (fst (NewSession player ''A'' 20))"
    "serverMu (fst (NewSession player ''A'' 20)) = MuFree"
    by (simp_all add: NewSession_eq)
  have a: "serverAddr (fst (NewSession player ''A'' 20)) = []"
    by (simp add: NewSession_eq)
  show ?thesis
    by (simp add: Transfer_dial_failed [OF h] a)
qed

text \<open>
  C8, as amended. A call of \<open>Transfer\<close> that finds the flag set is rejected and leaves
  the flag and the lock as they are: they belong to the transfer in flight. A call that
  finds the flag clear sets it at the check and runs the rest with the flag set; if the
  lock is free it returns or panics, it does not wait; and when it ends (dial failure,
  success, or the panic at the close of a nil backend connection), the flag is clear and
  the lock is free, so that the flag check of a later call succeeds. With several
  goroutines calling \<open>Transfer\<close> under any schedule, the flag is set exactly while one call
  is past the flag check and has not ended, and there is never more than one such call.
\<close>

theorem Transfer_flag_and_lock_on_exit:
  "(transferring s \<longrightarrow>
      Transfer dialed addr s = (Returned (Some ''already transferring''), s))
   \<and> (\<not> transferring s \<longrightarrow>
        transferring_CompareAndSwap s = (True, s\<lparr>transferring := True\<rparr>)
        \<and> Transfer dialed addr s = Transfer_after_check dialed addr (s\<lparr>transferring := True\<rparr>))
   \<and> (\<not> transferring s \<and> serverMu s = MuFree \<longrightarrow> fst (Transfer dialed addr s) \<noteq> Blocked)
   \<and> (\<not> transferring s \<and> fst (Transfer dialed addr s) \<noteq> Blocked \<longrightarrow>
        \<not> transferring (snd (Transfer dialed addr s))
        \<and> serverMu (snd (Transfer dialed addr s)) = MuFree
        \<and> fst (transferring_CompareAndSwap (snd (Transfer dialed addr s))) = True)
   \<and> (\<not> transferring s0 \<and> filter past_check calls0 = [] \<longrightarrow>
        (case run_schedule schedule (s0, calls0) of
           (s', calls') \<Rightarrow>
             (transferring s' \<longleftrightarrow> length (filter past_check calls') = 1)
             \<and> length (filter past_check calls') \<le> 1))"
proof (intro conjI impI)
  assume "transferring s"
  then show "Transfer dialed addr s = (Returned (Some ''already transferring''), s)"
    by (rule Transfer_rejected)
next
  assume "\<not> transferring s"
  then show "transferring_CompareAndSwap s = (True, s\<lparr>transferring := True\<rparr>)"
    by (simp add: transferring_CompareAndSwap_def)
next
  assume "\<not> transferring s"
  then show "Transfer dialed addr s = Transfer_after_check dialed addr (s\<lparr>transferring := True\<rparr>)"
    by (simp add: Transfer_split)
next
  assume "\<not> transferring s \<and> serverMu s = MuFree"
  then show "fst (Transfer dialed addr s) \<noteq> Blocked" by (simp add: Transfer_returns)
next
  assume a: "\<not> transferring s \<and> fst (Transfer dialed addr s) \<noteq> Blocked"
  then have r: "\<not> transferring (snd (Transfer dialed addr s))
      \<and> serverMu (snd (Transfer dialed addr s)) = MuFree"
    using Transfer_releases [of s dialed addr] by simp
  from r show "\<not> transferring (snd (Transfer dialed addr s))" by simp
  from r show "serverMu (snd (Transfer dialed addr s)) = MuFree" by simp
  from r show "fst (transferring_CompareAndSwap (snd (Transfer dialed addr s))) = True"
    by (simp add: transferring_CompareAndSwap_def)
next
  assume "\<not> transferring s0 \<and> filter past_check calls0 = []"
  then have "calls_inv (s0, calls0)" by (simp add: calls_inv_def)
  then have "calls_inv (run_schedule schedule (s0, calls0))" by (rule run_schedule_inv)
  then show "case run_schedule schedule (s0, calls0) of
           (s', calls') \<Rightarrow>
             (transferring s' \<longleftrightarrow> length (filter past_check calls') = 1)
             \<and> length (filter past_check calls') \<le> 1"
    by (auto simp: calls_inv_def split: prod.splits if_splits)
qed

theorem Transfer_flag_and_lock_on_exit_witness:
  "\<not> transferring session_A \<and> serverMu session_A = MuFree
   \<and> fst (Transfer (Inl ''refused'') ''B'' session_A) = Returned (Some ''refused'')
   \<and> \<not> transferring (snd (Transfer (Inl ''refused'') ''B'' session_A))
   \<and> serverMu (snd (Transfer (Inl ''refused'') ''B'' session_A)) = MuFree
   \<and> transferring (session_A\<lparr>transferring := True\<rparr>)
   \<and> Transfer (Inr conn_B) ''B'' (session_A\<lparr>transferring := True\<rparr>)
        = (Returned (Some ''already transferring''), session_A\<lparr>transferring := True\<rparr>)
   \<and> filter past_check [Pending (Inr conn_B) ''B'', Pending (Inl ''refused'') ''C''] = []
   \<and> run_schedule [1, 0] (session_A, [Pending (Inr conn_B) ''B'', Pending (Inl ''refused'') ''C''])
       = (session_A\<lparr>transferring := True\<rparr>,
          [Finished (Returned (Some ''already transferring'')), PastCheck (Inl ''refused'') ''C''])
   \<and> transferring (fst (run_schedule [1, 0]
         (session_A, [Pending (Inr conn_B) ''B'', Pending (Inl ''refused'') ''C''])))
   \<and> length (filter past_check (snd (run_schedule [1, 0]
         (session_A, [Pending (Inr conn_B) ''B'', Pending (Inl ''refused'') ''C''])))) = 1"
proof -
  let ?calls = "[Pending (Inr conn_B) ''B'', Pending (Inl ''refused'') ''C'']"
  have h: "\<not> transferring session_A" "serverMu session_A = MuFree"
    by (simp_all add: session_A_def)
  have e: "fst (Transfer (Inl ''refused'') ''B'' session_A) = Returned (Some ''refused'')"
    using h by (simp add: Transfer_dial_failed)
  have r: "run_schedule [1, 0] (session_A, ?calls)
       = (session_A\<lparr>transferring := True\<rparr>,
          [Finished (Returned (Some ''already transferring'')), PastCheck (Inl ''refused'') ''C''])"
    using h by (simp add: run_schedule_def step_call_def transferring_CompareAndSwap_def)
  note w1 = Transfer_flag_and_lock_on_exit
    [where s = session_A and dialed = "Inl ''refused''" and addr = "''B''"
       and ?s0.0 = session_A and ?calls0.0 = ?calls and schedule = "[1, 0]"]
  note w2 = Transfer_flag_and_lock_on_exit
    [where s = "session_A\<lparr>transferring := True\<rparr>" and dialed = "Inr conn_B" and addr = "''B''"
       and ?s0.0 = session_A and ?calls0.0 = ?calls and schedule = "[1, 0]"]
  note w1d = w1 [THEN conjunct2, THEN conjunct2, THEN conjunct2, THEN conjunct1]
  note w1e = w1 [THEN conjunct2, THEN conjunct2, THEN conjunct2, THEN conjunct2]
  have nb: "fst (Transfer (Inl ''refused'') ''B'' session_A) \<noteq> Blocked"
    using e by simp
  have rel: "\<not> transferring (snd (Transfer (Inl ''refused'') ''B'' session_A))
      \<and> serverMu (snd (Transfer (Inl ''refused'') ''B'' session_A)) = MuFree"
    using w1d h(1) nb by blast
  have rej: "Transfer (Inr conn_B) ''B'' (session_A\<lparr>transferring := True\<rparr>)
        = (Returned (Some ''already transferring''), session_A\<lparr>transferring := True\<rparr>)"
    using w2 [THEN conjunct1] by simp
  have f: "filter past_check ?calls = []" by simp
  have inv: "transferring (fst (run_schedule [1, 0] (session_A, ?calls)))
      \<and> length (filter past_check (snd (run_schedule [1, 0] (session_A, ?calls)))) = 1"
    using w1e h(1) f r by (auto split: prod.splits)
  show ?thesis
    using h e rel rej r inv by simp
qed

text \<open>
  C8 as stated fails on the rejection path: while a first call is past the flag check, a
  second call returns "already transferring" and the flag is still set after it returned.
\<close>

theorem rejected_Transfer_leaves_flag_set:
  "fst (Transfer (Inr conn_B) ''C'' (snd (transferring_CompareAndSwap session_A)))
      = Returned (Some ''already transferring'')
   \<and> transferring (snd (Transfer (Inr conn_B) ''C'' (snd (transferring_CompareAndSwap session_A))))"
  by (simp add: Transfer_def transferring_CompareAndSwap_def session_A_def)

text \<open>
  C9. \<open>Close\<close> closes the backend connection only if there is one. \<open>Close\<close> never
  panics; on a session that is not yet closed and has no backend connection it closes the
  client connection, removes the session from the registry and logs, with no close of a
  backend connection. This is the state the startup goroutine closes the session in after
  a failed first dial.
\<close>

theorem Close_skips_absent_backend:
  "(\<exists>s'. Close s = Some s')
   \<and> (serverConn s = None \<and> \<not> once s \<longrightarrow>
        Close s = Some (s\<lparr>once := True, trace := trace s @
          [ClientClose, RegistryRemove (identity_XUID (clientConn s)),
           LogInfo (''Closed session for '' @ identity_DisplayName (clientConn s))]\<rparr>))
   \<and> (\<exists>s'. NewSession_go (Inl err) started addr li (fst (NewSession cc addr li)) = Some s'
          \<and> serverConn s' = None \<and> once s'
          \<and> trace s' = [Go (Startup addr li), Dial addr, SetServerAddr addr, SetServerConn None,
               ClientClose, RegistryRemove (identity_XUID cc),
               LogInfo (''Closed session for '' @ identity_DisplayName cc),
               LogError (''Failed to dial server: '' @ err)])"
  by (simp add: Close_eq teardown_events_def NewSession_eq NewSession_go_dial_failed)

theorem Close_skips_absent_backend_witness:
  "serverConn session_undialed = None \<and> \<not> once session_undialed
    \<and> Close session_undialed = Some (session_undialed\<lparr>once := True, trace :=
          [ClientClose, RegistryRemove ''2535'', LogInfo ''Closed session for Steve'']\<rparr>)"
  using Close_skips_absent_backend [of session_undialed]
  by (simp add: session_undialed_def player_def)

text \<open>
  C10. \<open>NewSession\<close> never returns an error: its second result is nil for every input. A
  failed dial and a failed \<open>StartGame\<close> show in the log and in the closed session only.
\<close>

theorem NewSession_error_is_nil:
  "snd (NewSession cc addr li) = None
   \<and> (\<exists>s'. NewSession_go (Inl err) started addr li (fst (NewSession cc addr li)) = Some s'
          \<and> once s' \<and> LogError (''Failed to dial server: '' @ err) \<in> set (trace s'))
   \<and> (\<exists>s'. NewSession_go (Inr conn) (Some err) addr li (fst (NewSession cc addr li)) = Some s'
          \<and> once s' \<and> LogError (''Failed to start game timeout: '' @ err) \<in> set (trace s'))"
  by (simp add: NewSession_eq NewSession_go_dial_failed NewSession_go_start_failed)

end
